theory Spec2Isabelle
  imports Complex_Main "HOL-Library.Multiset"
begin

section \<open>JavaScript numbers\<close>

text \<open>
  A pressure reading is a finite IEEE-754 double, modelled by the real number it
  denotes (the two zeros, which compare equal, are one value). The result of an
  arithmetic operation on doubles is the exact result rounded to the nearest double,
  a tie going to the even significand, with 53 bits of significand, the least quantum
  \<open>2^-1074\<close> of the subnormal range, and an infinity when the rounded magnitude reaches
  \<open>2^1024\<close>. The sum of two finite doubles and its half are never \<open>NaN\<close>.
  \<open>binade x\<close> is the exponent \<open>e\<close> with \<open>2^e \<le> |x| < 2^(e+1)\<close>, computed from the
  number of bits of the integer part of \<open>|x|\<close>, or of \<open>1 / |x|\<close> rounded up when
  \<open>|x| < 1\<close>.
\<close>

fun bit_length :: "nat \<Rightarrow> nat" where
  "bit_length n = (if n = 0 then 0 else Suc (bit_length (n div 2)))"

declare bit_length.simps [simp del]

definition binade :: "real \<Rightarrow> int" where
  "binade x =
     (if 1 \<le> \<bar>x\<bar> then int (bit_length (nat \<lfloor>\<bar>x\<bar>\<rfloor>)) - 1
      else - int (bit_length (nat (\<lceil>1 / \<bar>x\<bar>\<rceil> - 1))))"

definition round_half_even :: "real \<Rightarrow> int" where
  "round_half_even y =
     (let f = \<lfloor>y\<rfloor>; d = y - of_int f
      in if d < 1 / 2 then f else if 1 / 2 < d then f + 1 else if even f then f else f + 1)"

datatype number = Finite real | PosInfinity | NegInfinity

definition round_double :: "real \<Rightarrow> number" where
  "round_double x =
     (if x = 0 then Finite 0
      else (let e = max (binade x) (- 1022);
                q = 2 powi (e - 52);
                r = of_int (round_half_even (x / q)) * q
            in if 2 powi 1024 \<le> \<bar>r\<bar> then (if 0 < x then PosInfinity else NegInfinity)
               else Finite r))"

definition Number_add :: "real \<Rightarrow> real \<Rightarrow> number" where
  "Number_add a b = round_double (a + b)"

definition Number_div_2 :: "number \<Rightarrow> number" where
  "Number_div_2 n =
     (case n of Finite v \<Rightarrow> round_double (v / 2)
      | PosInfinity \<Rightarrow> PosInfinity
      | NegInfinity \<Rightarrow> NegInfinity)"

section \<open>Data model (types)\<close>

text \<open>
  The three interfaces of the application. A pressure reading is a finite double,
  given by its real value; the average of a chart point is the result of an addition
  and a division of doubles; a time value (milliseconds since the epoch, what
  \<open>Date.prototype.getTime\<close> returns) is an integer. Field names follow the
  source; \<open>id\<close> and \<open>note\<close>, and the fields \<open>left\<close> and \<open>right\<close> that two interfaces
  share, carry a prefix.
\<close>

record EyePressureRecord =
  rec_id :: string
  name :: string
  date :: string
  left :: real
  right :: real
  is24h :: bool
  rec_note :: string

datatype GroupType = T24h | Regular

record RecordGroup =
  group_id :: string
  title :: string
  group_type :: GroupType
  records :: "EyePressureRecord list"

record ChartDataPoint =
  label :: string
  point_left :: real
  point_right :: real
  average :: number
  dateStr :: string
  minutesFromStart :: int

section \<open>The JavaScript runtime the code calls into\<close>

text \<open>
  What the code uses of the runtime and cannot be read off the repository is a
  parameter: \<open>getTime s\<close> is \<open>new Date(s).getTime()\<close> for a date string \<open>s\<close> that
  parses (the time values of the records that reach the grouping are produced by
  \<open>toISOString\<close>, which throws on an invalid date), \<open>LocalTZA t\<close> is the offset of
  the local time zone at the instant \<open>t\<close>, in milliseconds, and
  \<open>toLocaleDateString t\<close> is the \<open>zh-CN\<close> rendering of the calendar date with a
  numeric year and two-digit month and day. At the record source, where a date string
  may fail to parse, \<open>Date_parse s\<close> is the time value of \<open>new Date(s)\<close>, or
  \<open>None\<close> for an invalid date, and \<open>toISOString t\<close> is the ISO rendering of a
  valid time value. The grouping and the chart transform are not modelled on a record
  whose date does not parse: its time value would be \<open>NaN\<close>, on which the order that
  \<open>sort\<close> produces is left to the implementation. Time values and their differences
  are integers small enough for the arithmetic on them to be exact.
\<close>

record runtime =
  getTime :: "string \<Rightarrow> int"
  LocalTZA :: "int \<Rightarrow> int"
  toLocaleDateString :: "int \<Rightarrow> string"
  Date_parse :: "string \<Rightarrow> int option"
  toISOString :: "int \<Rightarrow> string"

datatype error = TypeError | RangeError

subsection \<open>Number to string\<close>

text \<open>
  A time value interpolated into a template literal is printed in decimal, with a
  minus sign when negative (time values stay below \<open>10^21\<close>, where the exponent
  notation would start).
\<close>

definition digit_char :: "nat \<Rightarrow> char" where
  "digit_char n = ''0123456789'' ! n"

fun nat_toString :: "nat \<Rightarrow> string" where
  "nat_toString n =
     (if n < 10 then [digit_char n] else nat_toString (n div 10) @ [digit_char (n mod 10)])"

declare nat_toString.simps [simp del]

definition Number_toString :: "int \<Rightarrow> string" where
  "Number_toString i = (if i < 0 then CHR ''-'' # nat_toString (nat (- i)) else nat_toString (nat i))"

section \<open>Grouping engine\<close>

definition THIRTY_HOURS_MS :: int where
  "THIRTY_HOURS_MS = 30 * 60 * 60 * 1000"

text \<open>
  The two title literals of the source are Chinese; a \<open>string\<close> here is a list of
  bytes, and the titles are the UTF-8 bytes of the literals.
\<close>

definition REGULAR_TITLE :: string where
  "REGULAR_TITLE =
     [CHR 0xE5, CHR 0xB8, CHR 0xB8, CHR 0xE8, CHR 0xA7, CHR 0x84, CHR 0xE7, CHR 0x9C, CHR 0xBC,
      CHR 0xE5, CHR 0x8E, CHR 0x8B, CHR 0xE6, CHR 0xB5, CHR 0x8B, CHR 0xE9, CHR 0x87, CHR 0x8F]"

definition TITLE_24H_PREFIX :: string where
  "TITLE_24H_PREFIX =
     [CHR ''2'', CHR ''4'', CHR 0xE5, CHR 0xB0, CHR 0x8F, CHR 0xE6, CHR 0x97, CHR 0xB6, CHR 0xE7,
      CHR 0x9C, CHR 0xBC, CHR 0xE5, CHR 0x8E, CHR 0x8B, CHR '' '', CHR ''-'', CHR '' '']"

text \<open>\<open>formatDate\<close>: the locale rendering of a \<open>Date\<close>, given by its time value.\<close>

definition formatDate :: "runtime \<Rightarrow> int \<Rightarrow> string" where
  "formatDate env d = toLocaleDateString env d"

text \<open>
  \<open>create24hGroup\<close> reads \<open>records[0].date\<close>: on an empty array \<open>records[0]\<close> is
  \<open>undefined\<close> and the property access throws a \<open>TypeError\<close>.
\<close>

definition create24hGroup :: "runtime \<Rightarrow> EyePressureRecord list \<Rightarrow> error + RecordGroup" where
  "create24hGroup env recs =
     (case recs of
        [] \<Rightarrow> Inl TypeError
      | r0 # _ \<Rightarrow>
          (let firstDate = getTime env (date r0);
               ttl = TITLE_24H_PREFIX @ formatDate env firstDate
           in Inr \<lparr>group_id = ''24h-'' @ Number_toString firstDate,
                   title = ttl,
                   group_type = T24h,
                   records = recs\<rparr>))"

text \<open>
  The comparator \<open>(a, b) => new Date(a.date).getTime() - new Date(b.date).getTime()\<close>
  orders by time value, and \<open>Array.prototype.sort\<close> is stable, as \<open>sort_key\<close> is.
\<close>

definition sortByDate :: "runtime \<Rightarrow> EyePressureRecord list \<Rightarrow> EyePressureRecord list" where
  "sortByDate env rs = sort_key (\<lambda>r. getTime env (date r)) rs"

text \<open>
  The \<open>for\<close> loop of \<open>groupRecords\<close>, over the elements \<open>sorted[1..]\<close> that are left:
  the state is the array \<open>groups\<close> and the array \<open>currentGroup\<close>.
\<close>

fun group_loop ::
  "runtime \<Rightarrow> RecordGroup list \<Rightarrow> EyePressureRecord list \<Rightarrow> EyePressureRecord list
     \<Rightarrow> error + (RecordGroup list \<times> EyePressureRecord list)" where
  "group_loop env groups currentGroup [] = Inr (groups, currentGroup)"
| "group_loop env groups currentGroup (r # rest) =
     (case currentGroup of
        [] \<Rightarrow> Inl TypeError
      | c0 # _ \<Rightarrow>
          (let timeDiff = getTime env (date r) - getTime env (date c0) in
           if timeDiff \<le> THIRTY_HOURS_MS
           then group_loop env groups (currentGroup @ [r]) rest
           else (case create24hGroup env currentGroup of
                   Inl e \<Rightarrow> Inl e
                 | Inr g \<Rightarrow> group_loop env (groups @ [g]) [r] rest)))"

definition groupRecords :: "runtime \<Rightarrow> EyePressureRecord list \<Rightarrow> error + RecordGroup list" where
  "groupRecords env recs =
     (let records24h = filter (\<lambda>r. is24h r) recs;
          regularRecords = filter (\<lambda>r. \<not> is24h r) recs;
          groups = [];
          groups =
            (if length regularRecords > 0
             then groups @ [\<lparr>group_id = ''regular'',
                             title = REGULAR_TITLE,
                             group_type = Regular,
                             records = sortByDate env regularRecords\<rparr>]
             else groups)
      in if length records24h > 0
         then (let sorted = sortByDate env records24h in
               case group_loop env groups [sorted ! 0] (drop 1 sorted) of
                 Inl e \<Rightarrow> Inl e
               | Inr (groups, currentGroup) \<Rightarrow>
                   if length currentGroup > 0
                   then (case create24hGroup env currentGroup of
                           Inl e \<Rightarrow> Inl e
                         | Inr g \<Rightarrow> Inr (groups @ [g]))
                   else Inr groups)
         else Inr groups)"

section \<open>Local time and the calendar\<close>

text \<open>
  The fields of a \<open>Date\<close> that the chart transform reads are those of the local time
  \<open>t + LocalTZA t\<close>. The day number of a time value is its quotient by the length of
  a day, rounded down; the day of the month of a day number is computed in the
  proleptic Gregorian calendar, counting from 1 March of year 0 in eras of 400 years,
  centuries, cycles of four years and years that start in March.
\<close>

definition msPerDay :: int where
  "msPerDay = 86400000"

definition msPerHour :: int where
  "msPerHour = 3600000"

definition msPerMinute :: int where
  "msPerMinute = 60000"

definition Day :: "int \<Rightarrow> int" where
  "Day t = t div msPerDay"

definition HourFromTime :: "int \<Rightarrow> int" where
  "HourFromTime t = (t div msPerHour) mod 24"

definition MinFromTime :: "int \<Rightarrow> int" where
  "MinFromTime t = (t div msPerMinute) mod 60"

definition day_of_era :: "int \<Rightarrow> int" where
  "day_of_era d = (d + 719468) mod 146097"

definition day_of_cycle_year :: "int \<Rightarrow> int" where
  "day_of_cycle_year doq = doq - 365 * min 3 (doq div 365)"

definition day_of_century_year :: "int \<Rightarrow> int" where
  "day_of_century_year doc = day_of_cycle_year (doc mod 1461)"

definition day_of_march_year :: "int \<Rightarrow> int" where
  "day_of_march_year doe = day_of_century_year (doe - 36524 * min 3 (doe div 36524))"

definition day_of_month :: "int \<Rightarrow> int" where
  "day_of_month doy = (let mp = (5 * doy + 2) div 153 in doy - (153 * mp + 2) div 5 + 1)"

definition DateFromDay :: "int \<Rightarrow> int" where
  "DateFromDay d = day_of_month (day_of_march_year (day_of_era d))"

definition DateFromTime :: "int \<Rightarrow> int" where
  "DateFromTime t = DateFromDay (Day t)"

definition LocalTime :: "runtime \<Rightarrow> int \<Rightarrow> int" where
  "LocalTime env t = t + LocalTZA env t"

definition getHours :: "runtime \<Rightarrow> int \<Rightarrow> int" where
  "getHours env d = HourFromTime (LocalTime env d)"

definition getMinutes :: "runtime \<Rightarrow> int \<Rightarrow> int" where
  "getMinutes env d = MinFromTime (LocalTime env d)"

definition getDate :: "runtime \<Rightarrow> int \<Rightarrow> int" where
  "getDate env d = DateFromTime (LocalTime env d)"

section \<open>Chart transform\<close>

text \<open>\<open>padStart(2, "0")\<close>: a string shorter than two characters is filled on the left.\<close>

definition padStart2 :: "string \<Rightarrow> string" where
  "padStart2 s = (if length s < 2 then replicate (2 - length s) CHR ''0'' @ s else s)"

definition formatTime :: "runtime \<Rightarrow> int \<Rightarrow> string" where
  "formatTime env d =
     (let hours = padStart2 (Number_toString (getHours env d));
          minutes = padStart2 (Number_toString (getMinutes env d))
      in hours @ '':'' @ minutes)"

text \<open>\<open>Math.round\<close> rounds to the nearest integer, a tie towards positive infinity.\<close>

definition Math_round :: "real \<Rightarrow> int" where
  "Math_round x = \<lfloor>x + 1 / 2\<rfloor>"

definition toChartPoint ::
  "runtime \<Rightarrow> RecordGroup \<Rightarrow> int \<Rightarrow> EyePressureRecord \<Rightarrow> ChartDataPoint" where
  "toChartPoint env grp firstDate record =
     (let firstTimestamp = firstDate;
          d = getTime env (date record);
          (lbl, mins) =
            (if group_type grp = T24h
             then (let timeStr = formatTime env d in
                   (if getDate env d \<noteq> getDate env firstDate then ''+1 '' @ timeStr else timeStr,
                    Math_round (real_of_int (d - firstTimestamp) / 60000)))
             else (formatDate env d,
                   Math_round (real_of_int (d - firstTimestamp) / 60000)))
      in \<lparr>label = lbl,
          point_left = left record,
          point_right = right record,
          average = Number_div_2 (Number_add (left record) (right record)),
          dateStr = date record,
          minutesFromStart = mins\<rparr>)"

definition toChartData :: "runtime \<Rightarrow> RecordGroup \<Rightarrow> ChartDataPoint list" where
  "toChartData env grp =
     (case records grp of
        [] \<Rightarrow> []
      | r0 # _ \<Rightarrow> map (toChartPoint env grp (getTime env (date r0))) (records grp))"

section \<open>Record source\<close>

text \<open>
  A page of the query result. Each optional chain of \<open>transformNotionPage\<close>, such as
  \<open>props.Date?.date?.start\<close> or \<open>props.Name?.title?.[0]?.plain_text\<close>, is modelled by
  its outcome: \<open>None\<close> when a link of the chain is missing or null, the value at its
  end otherwise. A page object without properties has \<open>properties = None\<close>.
\<close>

record NotionProps =
  prop_Date :: "string option"
  prop_Name :: "string option"
  prop_Left :: "real option"
  prop_Right :: "real option"
  prop_is24h :: "bool option"
  prop_Note :: "string option"

record NotionPage =
  page_id :: string
  properties :: "NotionProps option"

text \<open>\<open>x || ""\<close> on a string or \<open>undefined\<close>, and \<open>x ?? d\<close>.\<close>

definition or_empty :: "string option \<Rightarrow> string" where
  "or_empty x = (case x of None \<Rightarrow> [] | Some s \<Rightarrow> (if s = [] then [] else s))"

definition nullish :: "'a option \<Rightarrow> 'a \<Rightarrow> 'a" where
  "nullish x d = (case x of None \<Rightarrow> d | Some v \<Rightarrow> v)"

text \<open>
  The body of the \<open>try\<close> block: reading \<open>props.Date\<close> off missing properties throws a
  \<open>TypeError\<close>, \<open>toISOString\<close> of an invalid date throws a \<open>RangeError\<close>; a falsy
  \<open>dateValue\<close> (undefined, null or the empty string) returns \<open>null\<close>.
\<close>

definition transformNotionPage_try :: "runtime \<Rightarrow> NotionPage \<Rightarrow> error + EyePressureRecord option" where
  "transformNotionPage_try env page =
     (case properties page of
        None \<Rightarrow> Inl TypeError
      | Some props \<Rightarrow>
          (case prop_Date props of
             None \<Rightarrow> Inr None
           | Some dateValue \<Rightarrow>
               if dateValue = [] then Inr None
               else (let nm = or_empty (prop_Name props);
                         l = nullish (prop_Left props) 0;
                         r = nullish (prop_Right props) 0;
                         flag = nullish (prop_is24h props) False;
                         nt = or_empty (prop_Note props)
                     in case Date_parse env dateValue of
                          None \<Rightarrow> Inl RangeError
                        | Some t \<Rightarrow>
                            Inr (Some \<lparr>rec_id = page_id page,
                                       name = nm,
                                       date = toISOString env t,
                                       left = l,
                                       right = r,
                                       is24h = flag,
                                       rec_note = nt\<rparr>))))"

text \<open>The \<open>catch\<close> block logs the error and returns \<open>null\<close>.\<close>

definition transformNotionPage :: "runtime \<Rightarrow> NotionPage \<Rightarrow> EyePressureRecord option" where
  "transformNotionPage env page =
     (case transformNotionPage_try env page of Inl e \<Rightarrow> None | Inr r \<Rightarrow> r)"

text \<open>
  The \<open>for\<close> loop of \<open>fetchAllRecords\<close> over the results of one response, pushing onto
  \<open>records\<close>.
\<close>

fun transform_results ::
  "runtime \<Rightarrow> EyePressureRecord list \<Rightarrow> NotionPage list \<Rightarrow> EyePressureRecord list" where
  "transform_results env recs [] = recs"
| "transform_results env recs (page # rest) =
     (if properties page \<noteq> None
      then (case transformNotionPage env page of
              Some record \<Rightarrow> transform_results env (recs @ [record]) rest
            | None \<Rightarrow> transform_results env recs rest)
      else transform_results env recs rest)"

section \<open>The result of the grouping, as a function\<close>

text \<open>
  Definitions for the proofs: the time value of a record, the group that
  \<open>create24hGroup\<close> builds from a non-empty array, the runs into which the loop cuts
  the sorted continuous records, and the two parts of the output.
\<close>

definition ts :: "runtime \<Rightarrow> EyePressureRecord \<Rightarrow> int" where
  "ts env r = getTime env (date r)"

definition group24h :: "runtime \<Rightarrow> EyePressureRecord list \<Rightarrow> RecordGroup" where
  "group24h env recs =
     \<lparr>group_id = ''24h-'' @ Number_toString (ts env (hd recs)),
      title = TITLE_24H_PREFIX @ formatDate env (ts env (hd recs)),
      group_type = T24h,
      records = recs\<rparr>"

fun window_split ::
  "runtime \<Rightarrow> EyePressureRecord list \<Rightarrow> EyePressureRecord list \<Rightarrow> EyePressureRecord list list" where
  "window_split env cur [] = [cur]"
| "window_split env cur (r # rest) =
     (if ts env r - ts env (hd cur) \<le> THIRTY_HOURS_MS
      then window_split env (cur @ [r]) rest
      else cur # window_split env [r] rest)"

definition regular_part :: "runtime \<Rightarrow> EyePressureRecord list \<Rightarrow> RecordGroup list" where
  "regular_part env recs =
     (if filter (\<lambda>r. \<not> is24h r) recs = [] then []
      else [\<lparr>group_id = ''regular'', title = REGULAR_TITLE, group_type = Regular,
             records = sortByDate env (filter (\<lambda>r. \<not> is24h r) recs)\<rparr>])"

definition continuous_part :: "runtime \<Rightarrow> EyePressureRecord list \<Rightarrow> EyePressureRecord list list" where
  "continuous_part env recs =
     (case sortByDate env (filter (\<lambda>r. is24h r) recs) of
        [] \<Rightarrow> []
      | r0 # rest \<Rightarrow> window_split env [r0] rest)"

section \<open>The label of a continuous group, in the words of the specification\<close>

text \<open>
  The calendar day of a time value in local time, the time of day as two digits of
  the hour, a colon and two digits of the minute, and the label that carries the day
  marker exactly when the calendar day is not that of the first record.
\<close>

definition local_day :: "runtime \<Rightarrow> int \<Rightarrow> int" where
  "local_day env t = Day (LocalTime env t)"

definition two_digits :: "int \<Rightarrow> string" where
  "two_digits n = [digit_char (nat n div 10), digit_char (nat n mod 10)]"

definition time_of_day :: "runtime \<Rightarrow> int \<Rightarrow> string" where
  "time_of_day env t =
     two_digits (HourFromTime (LocalTime env t)) @ '':'' @ two_digits (MinFromTime (LocalTime env t))"

definition day_marked_label :: "runtime \<Rightarrow> int \<Rightarrow> int \<Rightarrow> string" where
  "day_marked_label env first t =
     (if local_day env t \<noteq> local_day env first then ''+1 '' @ time_of_day env t
      else time_of_day env t)"

section \<open>A sample input\<close>

text \<open>
  A runtime and four records on which the definitions are evaluated: the local zone
  is eight hours ahead of UTC, date strings are parsed from a table, and the locale
  rendering of a date is stood in for by the decimal day number.
\<close>

definition sample_times :: "(string \<times> int) list" where
  "sample_times =
     [(''2024-01-05T08:00:00.000Z'', 1704441600000),
      (''2024-01-05T18:00:00.000Z'', 1704477600000),
      (''2024-01-06T15:00:00.000Z'', 1704553200000),
      (''2023-12-01T09:30:00.000Z'', 1701423000000),
      (''2024-01-05T08:01:30.000Z'', 1704441690000),
      (''2024-01-05T12:00:00.000Z'', 1704456000000),
      (''2024-02-05T12:00:00.000Z'', 1707134400000)]"

definition sample_runtime :: runtime where
  "sample_runtime =
     \<lparr>getTime = (\<lambda>s. case map_of sample_times s of Some t \<Rightarrow> t | None \<Rightarrow> 0),
      LocalTZA = (\<lambda>t. 28800000),
      toLocaleDateString = (\<lambda>t. Number_toString (Day t)),
      Date_parse = map_of sample_times,
      toISOString = (\<lambda>t. case map_of (map (\<lambda>(s, t). (t, s)) sample_times) t of Some s \<Rightarrow> s | None \<Rightarrow> [])\<rparr>"

definition sample_record :: "string \<Rightarrow> bool \<Rightarrow> EyePressureRecord" where
  "sample_record d b =
     \<lparr>rec_id = d, name = ''p'', date = d, left = 15, right = 18, is24h = b, rec_note = []\<rparr>"

definition sample_records :: "EyePressureRecord list" where
  "sample_records =
     [sample_record ''2024-01-06T15:00:00.000Z'' True,
      sample_record ''2023-12-01T09:30:00.000Z'' False,
      sample_record ''2024-01-05T08:00:00.000Z'' True,
      sample_record ''2024-01-05T18:00:00.000Z'' True]"

definition sample_groups :: "RecordGroup list" where
  "sample_groups =
     [\<lparr>group_id = ''regular'', title = REGULAR_TITLE, group_type = Regular,
       records = [sample_record ''2023-12-01T09:30:00.000Z'' False]\<rparr>,
      \<lparr>group_id = ''24h-1704441600000'', title = TITLE_24H_PREFIX @ ''19727'', group_type = T24h,
       records = [sample_record ''2024-01-05T08:00:00.000Z'' True,
                  sample_record ''2024-01-05T18:00:00.000Z'' True]\<rparr>,
      \<lparr>group_id = ''24h-1704553200000'', title = TITLE_24H_PREFIX @ ''19728'', group_type = T24h,
       records = [sample_record ''2024-01-06T15:00:00.000Z'' True]\<rparr>]"

text \<open>
  A continuous group with a record ninety seconds after the first and one on the next
  local day, a group whose one record has the readings 15.1 and 17.3 (the doubles
  nearest to them), and a group of the continuous mode whose two records are a month
  apart.
\<close>

definition sample_chart_group :: RecordGroup where
  "sample_chart_group =
     \<lparr>group_id = ''24h-1704441600000'', title = TITLE_24H_PREFIX @ ''19727'', group_type = T24h,
      records = [sample_record ''2024-01-05T08:00:00.000Z'' True,
                 sample_record ''2024-01-05T08:01:30.000Z'' True,
                 sample_record ''2024-01-05T18:00:00.000Z'' True]\<rparr>"

definition decimal_readings_group :: RecordGroup where
  "decimal_readings_group =
     \<lparr>group_id = ''24h-1704441600000'', title = TITLE_24H_PREFIX @ ''19727'', group_type = T24h,
      records = [(sample_record ''2024-01-05T08:00:00.000Z'' True)
                   \<lparr>left := 8500544296661811 / 2 ^ 49, right := 4869517097094349 / 2 ^ 48\<rparr>]\<rparr>"

definition month_apart_group :: RecordGroup where
  "month_apart_group =
     \<lparr>group_id = ''24h-1704456000000'', title = TITLE_24H_PREFIX @ ''19727'', group_type = T24h,
      records = [sample_record ''2024-01-05T12:00:00.000Z'' True,
                 sample_record ''2024-02-05T12:00:00.000Z'' True]\<rparr>"

text \<open>Three pages: a complete one, one without a date, one with nothing but a date.\<close>

definition sample_page_full :: NotionPage where
  "sample_page_full =
     \<lparr>page_id = ''page-1'',
      properties = Some \<lparr>prop_Date = Some ''2024-01-05T08:00:00.000Z'', prop_Name = Some ''am'',
                         prop_Left = Some 15, prop_Right = Some 18, prop_is24h = Some True,
                         prop_Note = Some ''rest''\<rparr>\<rparr>"

definition sample_page_no_date :: NotionPage where
  "sample_page_no_date =
     \<lparr>page_id = ''page-2'',
      properties = Some \<lparr>prop_Date = None, prop_Name = Some ''noon'',
                         prop_Left = Some 16, prop_Right = Some 17, prop_is24h = Some True,
                         prop_Note = None\<rparr>\<rparr>"

definition sample_page_date_only :: NotionPage where
  "sample_page_date_only =
     \<lparr>page_id = ''page-3'',
      properties = Some \<lparr>prop_Date = Some ''2024-01-05T18:00:00.000Z'', prop_Name = None,
                         prop_Left = None, prop_Right = None, prop_is24h = None,
                         prop_Note = None\<rparr>\<rparr>"

section \<open>Properties of the grouping engine\<close>

lemma create24hGroup_nonempty:
  "recs \<noteq> [] \<Longrightarrow> create24hGroup env recs = Inr (group24h env recs)"
  by (cases recs) (simp_all add: create24hGroup_def group24h_def ts_def Let_def)

lemma window_split_nonempty: "window_split env cur rest \<noteq> []"
  by (induction rest arbitrary: cur) auto

lemma group_loop_window_split:
  "cur \<noteq> [] \<Longrightarrow>
   group_loop env groups cur rest =
     Inr (groups @ map (group24h env) (butlast (window_split env cur rest)),
          last (window_split env cur rest))"
proof (induction rest arbitrary: groups cur)
  case Nil
  then show ?case by simp
next
  case (Cons r rest)
  then obtain c0 cs where cur: "cur = c0 # cs" by (cases cur) auto
  show ?case
  proof (cases "ts env r - ts env (hd cur) \<le> THIRTY_HOURS_MS")
    case True
    then show ?thesis
      using Cons.IH [of "cur @ [r]" groups] cur by (simp add: ts_def)
  next
    case False
    then show ?thesis
      using Cons.IH [of "[r]" "groups @ [group24h env cur]"] cur
        create24hGroup_nonempty [of cur env]
      by (simp add: ts_def window_split_nonempty)
  qed
qed

lemma last_window_split_nonempty:
  "cur \<noteq> [] \<Longrightarrow> last (window_split env cur rest) \<noteq> []"
  by (induction rest arbitrary: cur) (auto simp: window_split_nonempty)

lemma groupRecords_eq:
  "groupRecords env recs =
     Inr (regular_part env recs @ map (group24h env) (continuous_part env recs))"
proof (cases "filter (\<lambda>r. is24h r) recs = []")
  case True
  then show ?thesis
    by (simp add: groupRecords_def regular_part_def continuous_part_def sortByDate_def)
next
  case False
  define sorted where "sorted = sortByDate env (filter (\<lambda>r. is24h r) recs)"
  have ne: "sorted \<noteq> []"
    using False by (metis length_0_conv length_sort sortByDate_def sorted_def)
  then obtain r0 rest where s: "sorted = r0 # rest" by (cases sorted) auto
  let ?w = "window_split env [r0] rest"
  have bl: "butlast ?w @ [last ?w] = ?w"
    by (simp add: window_split_nonempty)
  have "map (group24h env) (butlast ?w) @ [group24h env (last ?w)] = map (group24h env) ?w"
    by (metis (no_types) bl list.simps(8) list.simps(9) map_append)
  then show ?thesis
    using False s group_loop_window_split [of "[r0]" env _ rest]
      last_window_split_nonempty [of "[r0]" env rest]
      create24hGroup_nonempty [of "last ?w" env]
    by (simp add: groupRecords_def regular_part_def continuous_part_def sorted_def [symmetric] Let_def)
qed


lemma concat_window_split: "concat (window_split env cur rest) = cur @ rest"
  by (induction rest arbitrary: cur) auto

lemma window_split_all_nonempty:
  "cur \<noteq> [] \<Longrightarrow> w \<in> set (window_split env cur rest) \<Longrightarrow> w \<noteq> []"
  by (induction rest arbitrary: cur) (auto split: if_splits)

lemma window_split_sorted:
  "sorted (map (ts env) (cur @ rest)) \<Longrightarrow> w \<in> set (window_split env cur rest) \<Longrightarrow>
   sorted (map (ts env) w)"
proof (induction rest arbitrary: cur)
  case Nil
  then show ?case by simp
next
  case (Cons r rest)
  show ?case
  proof (cases "ts env r - ts env (hd cur) \<le> THIRTY_HOURS_MS")
    case True
    then show ?thesis using Cons.IH [of "cur @ [r]"] Cons.prems by simp
  next
    case False
    have "sorted (map (ts env) cur)" "sorted (map (ts env) ([r] @ rest))"
      using Cons.prems(1) by (simp_all add: sorted_append)
    then show ?thesis using Cons.IH [of "[r]"] Cons.prems(2) False by auto
  qed
qed

lemma window_split_within:
  "cur \<noteq> [] \<Longrightarrow> \<forall>r\<in>set cur. ts env r - ts env (hd cur) \<le> THIRTY_HOURS_MS \<Longrightarrow>
   w \<in> set (window_split env cur rest) \<Longrightarrow> r \<in> set w \<Longrightarrow>
   ts env r - ts env (hd w) \<le> THIRTY_HOURS_MS"
proof (induction rest arbitrary: cur)
  case Nil
  then show ?case by simp
next
  case (Cons x rest)
  show ?case
  proof (cases "ts env x - ts env (hd cur) \<le> THIRTY_HOURS_MS")
    case True
    have "\<forall>r\<in>set (cur @ [x]). ts env r - ts env (hd (cur @ [x])) \<le> THIRTY_HOURS_MS"
      using True Cons.prems(1,2) by auto
    then show ?thesis using Cons.IH [of "cur @ [x]"] Cons.prems True by simp
  next
    case False
    have "\<forall>r\<in>set [x]. ts env r - ts env (hd [x]) \<le> THIRTY_HOURS_MS"
      by (simp add: THIRTY_HOURS_MS_def)
    then show ?thesis using Cons.IH [of "[x]"] Cons.prems False by auto
  qed
qed

lemma hd_hd_window_split: "cur \<noteq> [] \<Longrightarrow> hd (hd (window_split env cur rest)) = hd cur"
  by (induction rest arbitrary: cur) auto

lemma window_split_anchors:
  "cur \<noteq> [] \<Longrightarrow>
   (\<forall>w\<in>set (tl (window_split env cur rest)). ts env (hd cur) + THIRTY_HOURS_MS < ts env (hd w)) \<and>
   sorted_wrt (\<lambda>a b. ts env (hd a) + THIRTY_HOURS_MS < ts env (hd b)) (window_split env cur rest)"
proof (induction rest arbitrary: cur)
  case Nil
  then show ?case by simp
next
  case (Cons x rest)
  show ?case
  proof (cases "ts env x - ts env (hd cur) \<le> THIRTY_HOURS_MS")
    case True
    then show ?thesis using Cons.IH [of "cur @ [x]"] Cons.prems by simp
  next
    case False
    let ?ws = "window_split env [x] rest"
    have ih: "(\<forall>w\<in>set (tl ?ws). ts env x + THIRTY_HOURS_MS < ts env (hd w)) \<and>
      sorted_wrt (\<lambda>a b. ts env (hd a) + THIRTY_HOURS_MS < ts env (hd b)) ?ws"
      using Cons.IH [of "[x]"] by simp
    have hd: "ts env (hd (hd ?ws)) = ts env x"
      by (simp add: hd_hd_window_split)
    have split: "set ?ws = insert (hd ?ws) (set (tl ?ws))"
      by (metis list.collapse list.simps(15) window_split_nonempty)
    have pos: "0 \<le> THIRTY_HOURS_MS" by (simp add: THIRTY_HOURS_MS_def)
    have "\<forall>w\<in>set ?ws. ts env (hd cur) + THIRTY_HOURS_MS < ts env (hd w)"
    proof
      fix w assume "w \<in> set ?ws"
      then consider "w = hd ?ws" | "w \<in> set (tl ?ws)" using split by auto
      then show "ts env (hd cur) + THIRTY_HOURS_MS < ts env (hd w)"
      proof cases
        case 1
        then show ?thesis using hd False by simp
      next
        case 2
        then show ?thesis using ih False pos by fastforce
      qed
    qed
    then show ?thesis using ih False by simp
  qed
qed

lemma sorted_hd_le:
  "sorted (map f w) \<Longrightarrow> r \<in> set w \<Longrightarrow> f (hd w) \<le> f r"
  by (cases w) auto

lemma continuous_part_concat:
  "concat (continuous_part env recs) = sortByDate env (filter (\<lambda>r. is24h r) recs)"
  by (simp add: continuous_part_def concat_window_split split: list.splits)

lemma continuous_part_nonempty:
  "w \<in> set (continuous_part env recs) \<Longrightarrow> w \<noteq> []"
  by (auto simp: continuous_part_def split: list.splits dest: window_split_all_nonempty [rotated])

lemma continuous_part_sorted:
  "w \<in> set (continuous_part env recs) \<Longrightarrow> sorted (map (ts env) w)"
proof -
  assume w: "w \<in> set (continuous_part env recs)"
  have s: "sorted (map (ts env) (sortByDate env (filter (\<lambda>r. is24h r) recs)))"
    unfolding sortByDate_def ts_def by (rule sorted_sort_key)
  show ?thesis
  proof (cases "sortByDate env (filter (\<lambda>r. is24h r) recs)")
    case Nil
    then show ?thesis using w by (simp add: continuous_part_def)
  next
    case (Cons r0 rest)
    then show ?thesis
      using w s window_split_sorted [of env "[r0]" rest w] by (simp add: continuous_part_def)
  qed
qed

lemma continuous_part_within:
  "w \<in> set (continuous_part env recs) \<Longrightarrow> r \<in> set w \<Longrightarrow>
   ts env r - ts env (hd w) \<le> THIRTY_HOURS_MS"
proof -
  assume w: "w \<in> set (continuous_part env recs)" and r: "r \<in> set w"
  show ?thesis
  proof (cases "sortByDate env (filter (\<lambda>r. is24h r) recs)")
    case Nil
    then show ?thesis using w by (simp add: continuous_part_def)
  next
    case (Cons r0 rest)
    then show ?thesis
      using w r window_split_within [of "[r0]" env w rest r]
      by (simp add: continuous_part_def THIRTY_HOURS_MS_def)
  qed
qed

lemma continuous_part_anchors:
  "sorted_wrt (\<lambda>a b. ts env (hd a) + THIRTY_HOURS_MS < ts env (hd b)) (continuous_part env recs)"
  by (cases "sortByDate env (filter (\<lambda>r. is24h r) recs)")
     (simp_all add: continuous_part_def window_split_anchors)


subsection \<open>The sample input, evaluated\<close>

lemma sample_getTime:
  "getTime sample_runtime ''2024-01-05T08:00:00.000Z'' = 1704441600000"
  "getTime sample_runtime ''2024-01-05T18:00:00.000Z'' = 1704477600000"
  "getTime sample_runtime ''2024-01-06T15:00:00.000Z'' = 1704553200000"
  "getTime sample_runtime ''2023-12-01T09:30:00.000Z'' = 1701423000000"
  "getTime sample_runtime ''2024-01-05T08:01:30.000Z'' = 1704441690000"
  "getTime sample_runtime ''2024-01-05T12:00:00.000Z'' = 1704456000000"
  "getTime sample_runtime ''2024-02-05T12:00:00.000Z'' = 1707134400000"
  by (simp_all add: sample_runtime_def sample_times_def)

lemma sample_groupRecords: "groupRecords sample_runtime sample_records = Inr sample_groups"
  by (simp add: groupRecords_def sample_records_def sample_groups_def sample_record_def
      sortByDate_def sample_getTime create24hGroup_def THIRTY_HOURS_MS_def formatDate_def
      Number_toString_def nat_toString.simps digit_char_def Day_def msPerDay_def
      sample_runtime_def [THEN arg_cong [of _ _ toLocaleDateString], simplified])


lemma records_group24h: "map records (map (group24h env) ws) = ws"
  by (induction ws) (simp_all add: group24h_def)

lemma filter_24h_output:
  "filter (\<lambda>g. group_type g = T24h) (regular_part env recs @ map (group24h env) ws)
     = map (group24h env) ws"
proof -
  have "filter (\<lambda>g. group_type g = T24h) (map (group24h env) ws) = map (group24h env) ws"
    by (induction ws) (simp_all add: group24h_def)
  then show ?thesis by (simp add: regular_part_def)
qed

lemma distinct_map_sorted_wrt:
  "sorted_wrt (\<lambda>a b. f a \<noteq> f b) xs \<Longrightarrow> distinct (map f xs)"
  by (induction xs) auto

lemma continuous_part_disjoint:
  assumes "i < j" "j < length (continuous_part env recs)"
  shows "set (continuous_part env recs ! i) \<inter> set (continuous_part env recs ! j) = {}"
proof -
  let ?cp = "continuous_part env recs"
  have gap: "ts env (hd (?cp ! i)) + THIRTY_HOURS_MS < ts env (hd (?cp ! j))"
    using continuous_part_anchors [of env recs] assms by (simp add: sorted_wrt_iff_nth_less)
  have wi: "?cp ! i \<in> set ?cp" and wj: "?cp ! j \<in> set ?cp" using assms by simp_all
  show ?thesis
  proof (rule ccontr)
    assume "set (?cp ! i) \<inter> set (?cp ! j) \<noteq> {}"
    then obtain r where ri: "r \<in> set (?cp ! i)" and rj: "r \<in> set (?cp ! j)" by auto
    have "ts env r - ts env (hd (?cp ! i)) \<le> THIRTY_HOURS_MS"
      using continuous_part_within [OF wi ri] .
    moreover have "ts env (hd (?cp ! j)) \<le> ts env r"
      using sorted_hd_le [OF continuous_part_sorted [OF wj] rj] .
    ultimately show False using gap by linarith
  qed
qed

lemma sortByDate_Nil_iff: "sortByDate env xs = [] \<longleftrightarrow> xs = []"
  unfolding sortByDate_def by (metis length_0_conv length_sort)

subsection \<open>The decimal rendering is injective\<close>

lemma digit_char_code: "n < 10 \<Longrightarrow> of_char (digit_char n) = (48 + n :: nat)"
proof -
  assume "n < 10"
  then consider "n = 0" | "n = 1" | "n = 2" | "n = 3" | "n = 4" | "n = 5" | "n = 6" | "n = 7"
    | "n = 8" | "n = 9"
    by atomize_elim presburger
  then show ?thesis by cases (simp_all add: digit_char_def)
qed

lemma digit_char_inj: "a < 10 \<Longrightarrow> b < 10 \<Longrightarrow> digit_char a = digit_char b \<Longrightarrow> a = b"
proof -
  assume a: "a < 10" and b: "b < 10" and e: "digit_char a = digit_char b"
  have "of_char (digit_char a) = (of_char (digit_char b) :: nat)" using e by simp
  then show ?thesis using a b by (simp add: digit_char_code)
qed

lemma digit_char_not_minus: "n < 10 \<Longrightarrow> digit_char n \<noteq> CHR ''-''"
proof
  assume n: "n < 10" and e: "digit_char n = CHR ''-''"
  have "of_char (digit_char n) = (of_char (CHR ''-'') :: nat)" using e by simp
  then show False using n by (simp add: digit_char_code)
qed

lemma nat_toString_digits: "c \<in> set (nat_toString n) \<Longrightarrow> c \<noteq> CHR ''-''"
proof (induction n arbitrary: c rule: nat_toString.induct)
  case (1 n)
  show ?case
  proof (cases "n < 10")
    case True
    then show ?thesis using "1.prems" digit_char_not_minus [of n]
      by (subst (asm) nat_toString.simps) auto
  next
    case False
    have "c \<in> set (nat_toString (n div 10)) \<or> c = digit_char (n mod 10)"
      using "1.prems" False by (subst (asm) nat_toString.simps) auto
    then show ?thesis
      using "1.IH" [OF False] digit_char_not_minus [of "n mod 10"] by auto
  qed
qed

lemma nat_toString_nonempty: "nat_toString n \<noteq> []"
  by (subst nat_toString.simps) simp

lemma nat_toString_inj: "nat_toString n = nat_toString m \<Longrightarrow> n = m"
proof (induction n arbitrary: m rule: nat_toString.induct)
  case (1 n)
  show ?case
  proof (cases "n < 10")
    case n: True
    show ?thesis
    proof (cases "m < 10")
      case True
      then show ?thesis using n "1.prems" digit_char_inj [of n m]
        by (subst (asm) nat_toString.simps, subst (asm) (2) nat_toString.simps) simp
    next
      case False
      have "length (nat_toString n) = 1" using n by (subst nat_toString.simps) simp
      moreover have "length (nat_toString m) \<ge> 2"
        using False nat_toString_nonempty [of "m div 10"]
        by (subst nat_toString.simps) (simp add: Suc_le_eq)
      ultimately show ?thesis using "1.prems" by simp
    qed
  next
    case n: False
    show ?thesis
    proof (cases "m < 10")
      case True
      have "length (nat_toString m) = 1" using True by (subst nat_toString.simps) simp
      moreover have "length (nat_toString n) \<ge> 2"
        using n nat_toString_nonempty [of "n div 10"]
        by (subst nat_toString.simps) (simp add: Suc_le_eq)
      ultimately show ?thesis using "1.prems" by simp
    next
      case False
      have en: "nat_toString n = nat_toString (n div 10) @ [digit_char (n mod 10)]"
        using n by (subst nat_toString.simps) simp
      have em: "nat_toString m = nat_toString (m div 10) @ [digit_char (m mod 10)]"
        using False by (subst nat_toString.simps) simp
      have "nat_toString (n div 10) = nat_toString (m div 10)"
        and d: "digit_char (n mod 10) = digit_char (m mod 10)"
        using "1.prems" en em by simp_all
      then have "n div 10 = m div 10" using "1.IH" [OF n] by simp
      moreover have "n mod 10 = m mod 10" using d digit_char_inj [of "n mod 10" "m mod 10"] by simp
      ultimately show ?thesis by (metis div_mult_mod_eq)
    qed
  qed
qed

lemma Number_toString_inj: "Number_toString a = Number_toString b \<Longrightarrow> a = b"
proof -
  assume e: "Number_toString a = Number_toString b"
  have hdne: "\<And>n. hd (nat_toString n) \<noteq> CHR ''-''"
    using nat_toString_digits nat_toString_nonempty by (metis hd_in_set)
  show ?thesis
  proof (cases "a < 0")
    case a: True
    show ?thesis
    proof (cases "b < 0")
      case True
      then have "nat (- a) = nat (- b)" using e a nat_toString_inj by (simp add: Number_toString_def)
      then show ?thesis using a True by simp
    next
      case False
      then have "CHR ''-'' # nat_toString (nat (- a)) = nat_toString (nat b)"
        using e a by (simp add: Number_toString_def)
      then show ?thesis using hdne [of "nat b"] by (metis list.sel(1))
    qed
  next
    case a: False
    show ?thesis
    proof (cases "b < 0")
      case True
      then have "CHR ''-'' # nat_toString (nat (- b)) = nat_toString (nat a)"
        using e a by (simp add: Number_toString_def)
      then show ?thesis using hdne [of "nat a"] by (metis list.sel(1))
    next
      case False
      then have "nat a = nat b" using e a nat_toString_inj by (simp add: Number_toString_def)
      then show ?thesis using a False by simp
    qed
  qed
qed

subsection \<open>The claims on grouping\<close>

text \<open>
  C9. Applied to the empty sequence of records, \<open>groupRecords\<close> returns the empty
  sequence of groups.
\<close>

theorem groupRecords_empty: "groupRecords env [] = Inr []"
  by (simp add: groupRecords_def)

text \<open>
  C10. Every group that \<open>groupRecords\<close> produces is non-empty: the call returns, and
  each group of the output holds at least one record, so its first record exists.
\<close>

theorem groupRecords_groups_nonempty:
  "\<exists>gs. groupRecords env recs = Inr gs \<and> (\<forall>g\<in>set gs. records g \<noteq> [])"
proof -
  have reg: "\<forall>g\<in>set (regular_part env recs). records g \<noteq> []"
    by (simp add: regular_part_def sortByDate_Nil_iff)
  have con: "\<forall>g\<in>set (map (group24h env) (continuous_part env recs)). records g \<noteq> []"
    using continuous_part_nonempty [of _ env recs] by (auto simp: group24h_def)
  have "\<forall>g\<in>set (regular_part env recs @ map (group24h env) (continuous_part env recs)).
          records g \<noteq> []"
    using reg con by (metis Un_iff set_append)
  then show ?thesis unfolding groupRecords_eq by blast
qed

theorem groupRecords_groups_nonempty_witness:
  "groupRecords sample_runtime sample_records = Inr sample_groups \<and>
   records (sample_groups ! 0) \<noteq> [] \<and> records (sample_groups ! 1) \<noteq> [] \<and>
   records (sample_groups ! 2) \<noteq> []"
proof -
  obtain gs where a: "groupRecords sample_runtime sample_records = Inr gs"
    and b: "\<forall>g\<in>set gs. records g \<noteq> []"
    using groupRecords_groups_nonempty [of sample_runtime sample_records] by blast
  have gs: "gs = sample_groups" using a sample_groupRecords by simp
  have "length sample_groups = 3" by (simp add: sample_groups_def)
  then have "sample_groups ! 0 \<in> set gs" "sample_groups ! 1 \<in> set gs" "sample_groups ! 2 \<in> set gs"
    unfolding gs by simp_all
  then show ?thesis using b sample_groupRecords by blast
qed

text \<open>
  C1. For every input list, \<open>groupRecords\<close> returns, and among its groups those of the
  continuous (24h) mode satisfy: every record of a group has a timestamp at or after
  that of the group's first record and at most 30 hours after it (the window is
  anchored at the first record of the group); the records of a group ascend in time;
  the groups, one after the other, are exactly the continuous records of the input in
  ascending order, so together they hold those records and no others; no record lies
  in two groups; and each next group starts more than 30 hours after the start of the
  one before.
\<close>

theorem continuous_groups_partition:
  "\<exists>gs. groupRecords env recs = Inr gs \<and>
     (let cg = filter (\<lambda>g. group_type g = T24h) gs in
        (\<forall>g\<in>set cg. records g \<noteq> [] \<and> sorted (map (ts env) (records g)) \<and>
           (\<forall>r\<in>set (records g).
              ts env (hd (records g)) \<le> ts env r \<and>
              ts env r - ts env (hd (records g)) \<le> THIRTY_HOURS_MS)) \<and>
        concat (map records cg) = sortByDate env (filter (\<lambda>r. is24h r) recs) \<and>
        mset (concat (map records cg)) = mset (filter (\<lambda>r. is24h r) recs) \<and>
        (\<forall>i j. i < j \<and> j < length cg \<longrightarrow>
           set (records (cg ! i)) \<inter> set (records (cg ! j)) = {}) \<and>
        sorted_wrt (\<lambda>a b. ts env (hd (records a)) + THIRTY_HOURS_MS < ts env (hd (records b))) cg)"
proof -
  let ?cp = "continuous_part env recs"
  let ?gs = "regular_part env recs @ map (group24h env) ?cp"
  let ?cg = "filter (\<lambda>g. group_type g = T24h) ?gs"
  have cg: "?cg = map (group24h env) ?cp" by (rule filter_24h_output)
  have recs_cg: "map records ?cg = ?cp" by (simp only: cg records_group24h)
  have p1: "\<forall>g\<in>set ?cg. records g \<noteq> [] \<and> sorted (map (ts env) (records g)) \<and>
           (\<forall>r\<in>set (records g).
              ts env (hd (records g)) \<le> ts env r \<and>
              ts env r - ts env (hd (records g)) \<le> THIRTY_HOURS_MS)"
  proof
    fix g assume "g \<in> set ?cg"
    then obtain w where w: "w \<in> set ?cp" and g: "g = group24h env w" unfolding cg by auto
    have r: "records g = w" by (simp add: g group24h_def)
    show "records g \<noteq> [] \<and> sorted (map (ts env) (records g)) \<and>
           (\<forall>r\<in>set (records g).
              ts env (hd (records g)) \<le> ts env r \<and>
              ts env r - ts env (hd (records g)) \<le> THIRTY_HOURS_MS)"
      unfolding r
      using continuous_part_nonempty [OF w] continuous_part_sorted [OF w]
        continuous_part_within [OF w] sorted_hd_le [OF continuous_part_sorted [OF w]]
      by blast
  qed
  have p2: "concat (map records ?cg) = sortByDate env (filter (\<lambda>r. is24h r) recs)"
    by (simp only: recs_cg continuous_part_concat)
  have p3: "mset (concat (map records ?cg)) = mset (filter (\<lambda>r. is24h r) recs)"
    by (simp only: p2) (simp add: sortByDate_def)
  have p4: "\<forall>i j. i < j \<and> j < length ?cg \<longrightarrow>
           set (records (?cg ! i)) \<inter> set (records (?cg ! j)) = {}"
  proof (intro allI impI)
    fix i j assume ij: "i < j \<and> j < length ?cg"
    then have j: "j < length ?cp" and i: "i < length ?cp" unfolding cg by simp_all
    have "records (?cg ! i) = ?cp ! i" "records (?cg ! j) = ?cp ! j"
      unfolding cg using i j by (simp_all add: group24h_def)
    then show "set (records (?cg ! i)) \<inter> set (records (?cg ! j)) = {}"
      using continuous_part_disjoint [of i j env recs] ij j by simp
  qed
  have p5: "sorted_wrt (\<lambda>a b. ts env (hd (records a)) + THIRTY_HOURS_MS < ts env (hd (records b))) ?cg"
    using continuous_part_anchors [of env recs]
    unfolding cg by (simp add: sorted_wrt_map group24h_def)
  show ?thesis
    unfolding Let_def
    by (rule exI [where x = "?gs"]) (rule conjI groupRecords_eq p1 p2 p3 p4 p5)+
qed

theorem continuous_groups_partition_witness:
  "groupRecords sample_runtime sample_records = Inr sample_groups \<and>
   filter (\<lambda>g. group_type g = T24h) sample_groups = [sample_groups ! 1, sample_groups ! 2] \<and>
   ts sample_runtime (sample_record ''2024-01-05T18:00:00.000Z'' True)
     - ts sample_runtime (hd (records (sample_groups ! 1))) \<le> THIRTY_HOURS_MS \<and>
   concat (map records [sample_groups ! 1, sample_groups ! 2])
     = sortByDate sample_runtime (filter (\<lambda>r. is24h r) sample_records) \<and>
   set (records (sample_groups ! 1)) \<inter> set (records (sample_groups ! 2)) = {} \<and>
   ts sample_runtime (hd (records (sample_groups ! 1))) + THIRTY_HOURS_MS
     < ts sample_runtime (hd (records (sample_groups ! 2)))"
proof -
  let ?cg = "[sample_groups ! 1, sample_groups ! 2]"
  obtain gs where a: "groupRecords sample_runtime sample_records = Inr gs"
    and w: "\<forall>g\<in>set (filter (\<lambda>g. group_type g = T24h) gs).
           records g \<noteq> [] \<and> sorted (map (ts sample_runtime) (records g)) \<and>
           (\<forall>r\<in>set (records g).
              ts sample_runtime (hd (records g)) \<le> ts sample_runtime r \<and>
              ts sample_runtime r - ts sample_runtime (hd (records g)) \<le> THIRTY_HOURS_MS)"
    and c: "concat (map records (filter (\<lambda>g. group_type g = T24h) gs))
           = sortByDate sample_runtime (filter (\<lambda>r. is24h r) sample_records)"
    and d: "\<forall>i j. i < j \<and> j < length (filter (\<lambda>g. group_type g = T24h) gs) \<longrightarrow>
           set (records (filter (\<lambda>g. group_type g = T24h) gs ! i))
             \<inter> set (records (filter (\<lambda>g. group_type g = T24h) gs ! j)) = {}"
    and s: "sorted_wrt (\<lambda>a b. ts sample_runtime (hd (records a)) + THIRTY_HOURS_MS
                             < ts sample_runtime (hd (records b)))
              (filter (\<lambda>g. group_type g = T24h) gs)"
    using continuous_groups_partition [of sample_runtime sample_records]
    unfolding Let_def by blast
  have gs: "gs = sample_groups" using a sample_groupRecords by simp
  have cg: "filter (\<lambda>g. group_type g = T24h) sample_groups = ?cg"
    by (simp add: sample_groups_def)
  have r: "sample_record ''2024-01-05T18:00:00.000Z'' True \<in> set (records (sample_groups ! 1))"
    by (simp add: sample_groups_def)
  have "sample_groups ! 1 \<in> set ?cg" by simp
  with w r have p1: "ts sample_runtime (sample_record ''2024-01-05T18:00:00.000Z'' True)
     - ts sample_runtime (hd (records (sample_groups ! 1))) \<le> THIRTY_HOURS_MS"
    unfolding gs cg by blast
  have p2: "concat (map records ?cg)
     = sortByDate sample_runtime (filter (\<lambda>r. is24h r) sample_records)"
    using c unfolding gs cg .
  have "(0::nat) < 1 \<and> 1 < length ?cg" by simp
  with d have p3: "set (records (?cg ! 0)) \<inter> set (records (?cg ! 1)) = {}"
    unfolding gs cg by blast
  have p4: "ts sample_runtime (hd (records (sample_groups ! 1))) + THIRTY_HOURS_MS
     < ts sample_runtime (hd (records (sample_groups ! 2)))"
    using s unfolding gs cg by simp
  show ?thesis using sample_groupRecords cg p1 p2 p3 p4 by simp
qed


lemma group_type_group24h: "g \<in> set (map (group24h env) ws) \<Longrightarrow> group_type g = T24h"
  by (auto simp: group24h_def)

text \<open>
  C2. When the input holds at least one regular record (\<open>is24h\<close> false),
  \<open>groupRecords\<close> returns a list whose first group is the regular group: its id is
  \<open>regular\<close>, its title the fixed title, its records all the regular records of the
  input in ascending order of timestamp (ties in input order). Every group after it
  is a continuous group, so there is exactly one regular group and it comes before
  every continuous group; the continuous groups follow in ascending order of the
  timestamps of their first records.
\<close>

theorem regular_group_first:
  assumes "r \<in> set recs" and "\<not> is24h r"
  shows "\<exists>g rest. groupRecords env recs = Inr (g # rest) \<and>
           group_id g = ''regular'' \<and> title g = REGULAR_TITLE \<and> group_type g = Regular \<and>
           records g = sortByDate env (filter (\<lambda>r. \<not> is24h r) recs) \<and>
           mset (records g) = mset (filter (\<lambda>r. \<not> is24h r) recs) \<and>
           sorted (map (ts env) (records g)) \<and>
           (\<forall>g'\<in>set rest. group_type g' = T24h) \<and>
           sorted_wrt (\<lambda>a b. ts env (hd (records a)) < ts env (hd (records b))) rest"
proof -
  let ?reg = "filter (\<lambda>r. \<not> is24h r) recs"
  let ?g = "\<lparr>group_id = ''regular'', title = REGULAR_TITLE, group_type = Regular,
             records = sortByDate env ?reg\<rparr>"
  let ?rest = "map (group24h env) (continuous_part env recs)"
  have ne: "?reg \<noteq> []" using assms by (auto simp: filter_empty_conv)
  have out: "groupRecords env recs = Inr (?g # ?rest)"
    using ne by (simp add: groupRecords_eq regular_part_def)
  have p1: "mset (records ?g) = mset ?reg" by (simp add: sortByDate_def)
  have p2: "sorted (map (ts env) (records ?g))"
    unfolding sortByDate_def ts_def by simp
  have p3: "\<forall>g'\<in>set ?rest. group_type g' = T24h"
    using group_type_group24h by blast
  have pos: "0 \<le> THIRTY_HOURS_MS" by (simp add: THIRTY_HOURS_MS_def)
  have p4: "sorted_wrt (\<lambda>a b. ts env (hd (records a)) < ts env (hd (records b))) ?rest"
    using sorted_wrt_mono_rel [OF _ continuous_part_anchors [of env recs],
        of "\<lambda>a b. ts env (hd a) < ts env (hd b)"] pos
    by (simp add: sorted_wrt_map group24h_def)
  show ?thesis
    using out p1 p2 p3 p4
    by (intro exI [of _ ?g] exI [of _ ?rest]) simp
qed

theorem regular_group_first_witness:
  "sample_record ''2023-12-01T09:30:00.000Z'' False \<in> set sample_records \<and>
   \<not> is24h (sample_record ''2023-12-01T09:30:00.000Z'' False) \<and>
   groupRecords sample_runtime sample_records = Inr sample_groups \<and>
   group_id (hd sample_groups) = ''regular'' \<and>
   title (hd sample_groups) = REGULAR_TITLE \<and>
   group_type (hd sample_groups) = Regular \<and>
   records (hd sample_groups) = sortByDate sample_runtime (filter (\<lambda>r. \<not> is24h r) sample_records) \<and>
   group_type (sample_groups ! 1) = T24h \<and> group_type (sample_groups ! 2) = T24h \<and>
   ts sample_runtime (hd (records (sample_groups ! 1)))
     < ts sample_runtime (hd (records (sample_groups ! 2)))"
proof -
  have h1: "sample_record ''2023-12-01T09:30:00.000Z'' False \<in> set sample_records"
    by (simp add: sample_records_def)
  have h2: "\<not> is24h (sample_record ''2023-12-01T09:30:00.000Z'' False)"
    by (simp add: sample_record_def)
  obtain g rest where a: "groupRecords sample_runtime sample_records = Inr (g # rest)"
    and b: "group_id g = ''regular''" "title g = REGULAR_TITLE" "group_type g = Regular"
      "records g = sortByDate sample_runtime (filter (\<lambda>r. \<not> is24h r) sample_records)"
    and c: "\<forall>g'\<in>set rest. group_type g' = T24h"
    and d: "sorted_wrt (\<lambda>a b. ts sample_runtime (hd (records a)) < ts sample_runtime (hd (records b))) rest"
    using regular_group_first [OF h1 h2, of sample_runtime] by blast
  have gs: "g # rest = sample_groups" using a sample_groupRecords by simp
  have g: "g = hd sample_groups" and rest: "rest = [sample_groups ! 1, sample_groups ! 2]"
    using gs by (auto simp: sample_groups_def)
  show ?thesis
    using h1 h2 sample_groupRecords b c d unfolding g rest by simp
qed

text \<open>
  C8. The identifiers of the groups that \<open>groupRecords\<close> returns are pairwise
  distinct. The id of a continuous group is \<open>24h-\<close> followed by the decimal time
  value of its first record, and differs from \<open>regular\<close>, the id of the regular
  group; two time values that differ give different ids.
\<close>

theorem group_ids_distinct:
  "\<exists>gs. groupRecords env recs = Inr gs \<and>
     distinct (map group_id gs) \<and>
     (\<forall>g\<in>set gs. group_type g = T24h \<longrightarrow>
        group_id g = ''24h-'' @ Number_toString (ts env (hd (records g))) \<and>
        group_id g \<noteq> ''regular'') \<and>
     (\<forall>g\<in>set gs. group_type g = Regular \<longrightarrow> group_id g = ''regular'') \<and>
     (\<forall>a b. ''24h-'' @ Number_toString a = ''24h-'' @ Number_toString b \<longrightarrow> a = b)"
proof -
  let ?cp = "continuous_part env recs"
  let ?gs = "regular_part env recs @ map (group24h env) ?cp"
  have pos: "0 \<le> THIRTY_HOURS_MS" by (simp add: THIRTY_HOURS_MS_def)
  have "sorted_wrt (\<lambda>a b. ts env (hd a) \<noteq> ts env (hd b)) ?cp"
    using sorted_wrt_mono_rel [OF _ continuous_part_anchors [of env recs],
        of "\<lambda>a b. ts env (hd a) \<noteq> ts env (hd b)"] pos by simp
  then have "sorted_wrt (\<lambda>a b. group_id (group24h env a) \<noteq> group_id (group24h env b)) ?cp"
    by (rule sorted_wrt_mono_rel [rotated]) (auto simp: group24h_def dest: Number_toString_inj)
  then have d24: "distinct (map group_id (map (group24h env) ?cp))"
    using distinct_map_sorted_wrt [of "\<lambda>w. group_id (group24h env w)" ?cp]
    by (simp add: comp_def)
  have ne: "\<forall>g\<in>set (map (group24h env) ?cp). group_id g \<noteq> ''regular''"
    by (auto simp: group24h_def)
  have p1: "distinct (map group_id ?gs)"
    using d24 ne by (auto simp: regular_part_def)
  have p2: "\<forall>g\<in>set ?gs. group_type g = T24h \<longrightarrow>
        group_id g = ''24h-'' @ Number_toString (ts env (hd (records g))) \<and>
        group_id g \<noteq> ''regular''"
    by (auto simp: regular_part_def group24h_def)
  have p3: "\<forall>g\<in>set ?gs. group_type g = Regular \<longrightarrow> group_id g = ''regular''"
    by (auto simp: regular_part_def group24h_def)
  have p4: "\<forall>a b. ''24h-'' @ Number_toString a = ''24h-'' @ Number_toString b \<longrightarrow> a = b"
    using Number_toString_inj by simp
  show ?thesis
    by (rule exI [where x = "?gs"]) (rule conjI groupRecords_eq p1 p2 p3 p4)+
qed

theorem group_ids_distinct_witness:
  "groupRecords sample_runtime sample_records = Inr sample_groups \<and>
   map group_id sample_groups = [''regular'', ''24h-1704441600000'', ''24h-1704553200000''] \<and>
   distinct [''regular'', ''24h-1704441600000'', ''24h-1704553200000''] \<and>
   group_type (sample_groups ! 1) = T24h \<and>
   group_id (sample_groups ! 1)
     = ''24h-'' @ Number_toString (ts sample_runtime (hd (records (sample_groups ! 1)))) \<and>
   group_id (sample_groups ! 1) \<noteq> ''regular''"
proof -
  obtain gs where a: "groupRecords sample_runtime sample_records = Inr gs"
    and b: "distinct (map group_id gs)"
    and c: "\<forall>g\<in>set gs. group_type g = T24h \<longrightarrow>
        group_id g = ''24h-'' @ Number_toString (ts sample_runtime (hd (records g))) \<and>
        group_id g \<noteq> ''regular''"
    using group_ids_distinct [of sample_runtime sample_records] by blast
  have gs: "gs = sample_groups" using a sample_groupRecords by simp
  have ids: "map group_id sample_groups = [''regular'', ''24h-1704441600000'', ''24h-1704553200000'']"
    by (simp add: sample_groups_def)
  have t: "group_type (sample_groups ! 1) = T24h" by (simp add: sample_groups_def)
  have "sample_groups ! 1 \<in> set gs" unfolding gs by (simp add: sample_groups_def)
  with c t have "group_id (sample_groups ! 1)
     = ''24h-'' @ Number_toString (ts sample_runtime (hd (records (sample_groups ! 1)))) \<and>
   group_id (sample_groups ! 1) \<noteq> ''regular''" by blast
  moreover have "distinct [''regular'', ''24h-1704441600000'', ''24h-1704553200000'']"
    using b unfolding gs ids .
  ultimately show ?thesis using sample_groupRecords ids t by blast
qed

section \<open>Properties of the calendar\<close>

text \<open>
  The day of the month on some known days (1 January 1970, 28 February and 1 March
  1970, 29 February and 1 March of 2000 and of 2024, 28 February and 1 March 1900,
  31 December 1969). From one day to the next the day of the month goes up by one or
  falls back to 1 from 28 or more, so two different days fewer than 28 days apart
  never share their day of the month.
\<close>

lemma DateFromDay_examples:
  "DateFromDay 0 = 1" "DateFromDay 58 = 28" "DateFromDay 59 = 1"
  "DateFromDay 11016 = 29" "DateFromDay 11017 = 1"
  "DateFromDay 19782 = 29" "DateFromDay 19783 = 1"
  "DateFromDay (- 25509) = 28" "DateFromDay (- 25508) = 1"
  "DateFromDay (- 1) = 31"
  by (simp_all add: DateFromDay_def day_of_era_def day_of_march_year_def
      day_of_century_year_def day_of_cycle_year_def day_of_month_def)

lemma div_in_range:
  fixes a b q :: int
  assumes "b * q \<le> a" and "a < b * q + b"
  shows "a div b = q"
  using int_div_pos_eq [of a b q "a - b * q"] assms by simp

lemma mod_in_range:
  fixes a b q :: int
  assumes "b * q \<le> a" and "a < b * q + b"
  shows "a mod b = a - b * q"
  using int_mod_pos_eq [of a b q "a - b * q"] assms by simp

lemma day_of_month_step:
  assumes "0 \<le> y" and "y < 365"
  shows "day_of_month (y + 1) = day_of_month y + 1 \<or>
         (day_of_month (y + 1) = 1 \<and> 28 \<le> day_of_month y)"
proof -
  have s1: ?thesis if h: "y < 30"
  proof (cases "y < 0")
    case True
    then show ?thesis using assms by simp
  next
    case False
    have d0: "(5 * y + 2) div 153 = 0"
      using False h by (intro div_in_range; simp)
    have d1: "(5 * (y + 1) + 2) div 153 = 0"
      using False h by (intro div_in_range; simp)
    show ?thesis using False h d0 d1 by (simp add: day_of_month_def)
  qed
  have s2: ?thesis if h: "y < 31"
  proof (cases "y < 30")
    case True
    then show ?thesis by (rule s1)
  next
    case False
    then have "y = 30" using h by linarith
    then show ?thesis by (simp add: day_of_month_def)
  qed
  have s3: ?thesis if h: "y < 60"
  proof (cases "y < 31")
    case True
    then show ?thesis by (rule s2)
  next
    case False
    have d0: "(5 * y + 2) div 153 = 1"
      using False h by (intro div_in_range; simp)
    have d1: "(5 * (y + 1) + 2) div 153 = 1"
      using False h by (intro div_in_range; simp)
    show ?thesis using False h d0 d1 by (simp add: day_of_month_def)
  qed
  have s4: ?thesis if h: "y < 61"
  proof (cases "y < 60")
    case True
    then show ?thesis by (rule s3)
  next
    case False
    then have "y = 60" using h by linarith
    then show ?thesis by (simp add: day_of_month_def)
  qed
  have s5: ?thesis if h: "y < 91"
  proof (cases "y < 61")
    case True
    then show ?thesis by (rule s4)
  next
    case False
    have d0: "(5 * y + 2) div 153 = 2"
      using False h by (intro div_in_range; simp)
    have d1: "(5 * (y + 1) + 2) div 153 = 2"
      using False h by (intro div_in_range; simp)
    show ?thesis using False h d0 d1 by (simp add: day_of_month_def)
  qed
  have s6: ?thesis if h: "y < 92"
  proof (cases "y < 91")
    case True
    then show ?thesis by (rule s5)
  next
    case False
    then have "y = 91" using h by linarith
    then show ?thesis by (simp add: day_of_month_def)
  qed
  have s7: ?thesis if h: "y < 121"
  proof (cases "y < 92")
    case True
    then show ?thesis by (rule s6)
  next
    case False
    have d0: "(5 * y + 2) div 153 = 3"
      using False h by (intro div_in_range; simp)
    have d1: "(5 * (y + 1) + 2) div 153 = 3"
      using False h by (intro div_in_range; simp)
    show ?thesis using False h d0 d1 by (simp add: day_of_month_def)
  qed
  have s8: ?thesis if h: "y < 122"
  proof (cases "y < 121")
    case True
    then show ?thesis by (rule s7)
  next
    case False
    then have "y = 121" using h by linarith
    then show ?thesis by (simp add: day_of_month_def)
  qed
  have s9: ?thesis if h: "y < 152"
  proof (cases "y < 122")
    case True
    then show ?thesis by (rule s8)
  next
    case False
    have d0: "(5 * y + 2) div 153 = 4"
      using False h by (intro div_in_range; simp)
    have d1: "(5 * (y + 1) + 2) div 153 = 4"
      using False h by (intro div_in_range; simp)
    show ?thesis using False h d0 d1 by (simp add: day_of_month_def)
  qed
  have s10: ?thesis if h: "y < 153"
  proof (cases "y < 152")
    case True
    then show ?thesis by (rule s9)
  next
    case False
    then have "y = 152" using h by linarith
    then show ?thesis by (simp add: day_of_month_def)
  qed
  have s11: ?thesis if h: "y < 183"
  proof (cases "y < 153")
    case True
    then show ?thesis by (rule s10)
  next
    case False
    have d0: "(5 * y + 2) div 153 = 5"
      using False h by (intro div_in_range; simp)
    have d1: "(5 * (y + 1) + 2) div 153 = 5"
      using False h by (intro div_in_range; simp)
    show ?thesis using False h d0 d1 by (simp add: day_of_month_def)
  qed
  have s12: ?thesis if h: "y < 184"
  proof (cases "y < 183")
    case True
    then show ?thesis by (rule s11)
  next
    case False
    then have "y = 183" using h by linarith
    then show ?thesis by (simp add: day_of_month_def)
  qed
  have s13: ?thesis if h: "y < 213"
  proof (cases "y < 184")
    case True
    then show ?thesis by (rule s12)
  next
    case False
    have d0: "(5 * y + 2) div 153 = 6"
      using False h by (intro div_in_range; simp)
    have d1: "(5 * (y + 1) + 2) div 153 = 6"
      using False h by (intro div_in_range; simp)
    show ?thesis using False h d0 d1 by (simp add: day_of_month_def)
  qed
  have s14: ?thesis if h: "y < 214"
  proof (cases "y < 213")
    case True
    then show ?thesis by (rule s13)
  next
    case False
    then have "y = 213" using h by linarith
    then show ?thesis by (simp add: day_of_month_def)
  qed
  have s15: ?thesis if h: "y < 244"
  proof (cases "y < 214")
    case True
    then show ?thesis by (rule s14)
  next
    case False
    have d0: "(5 * y + 2) div 153 = 7"
      using False h by (intro div_in_range; simp)
    have d1: "(5 * (y + 1) + 2) div 153 = 7"
      using False h by (intro div_in_range; simp)
    show ?thesis using False h d0 d1 by (simp add: day_of_month_def)
  qed
  have s16: ?thesis if h: "y < 245"
  proof (cases "y < 244")
    case True
    then show ?thesis by (rule s15)
  next
    case False
    then have "y = 244" using h by linarith
    then show ?thesis by (simp add: day_of_month_def)
  qed
  have s17: ?thesis if h: "y < 274"
  proof (cases "y < 245")
    case True
    then show ?thesis by (rule s16)
  next
    case False
    have d0: "(5 * y + 2) div 153 = 8"
      using False h by (intro div_in_range; simp)
    have d1: "(5 * (y + 1) + 2) div 153 = 8"
      using False h by (intro div_in_range; simp)
    show ?thesis using False h d0 d1 by (simp add: day_of_month_def)
  qed
  have s18: ?thesis if h: "y < 275"
  proof (cases "y < 274")
    case True
    then show ?thesis by (rule s17)
  next
    case False
    then have "y = 274" using h by linarith
    then show ?thesis by (simp add: day_of_month_def)
  qed
  have s19: ?thesis if h: "y < 305"
  proof (cases "y < 275")
    case True
    then show ?thesis by (rule s18)
  next
    case False
    have d0: "(5 * y + 2) div 153 = 9"
      using False h by (intro div_in_range; simp)
    have d1: "(5 * (y + 1) + 2) div 153 = 9"
      using False h by (intro div_in_range; simp)
    show ?thesis using False h d0 d1 by (simp add: day_of_month_def)
  qed
  have s20: ?thesis if h: "y < 306"
  proof (cases "y < 305")
    case True
    then show ?thesis by (rule s19)
  next
    case False
    then have "y = 305" using h by linarith
    then show ?thesis by (simp add: day_of_month_def)
  qed
  have s21: ?thesis if h: "y < 336"
  proof (cases "y < 306")
    case True
    then show ?thesis by (rule s20)
  next
    case False
    have d0: "(5 * y + 2) div 153 = 10"
      using False h by (intro div_in_range; simp)
    have d1: "(5 * (y + 1) + 2) div 153 = 10"
      using False h by (intro div_in_range; simp)
    show ?thesis using False h d0 d1 by (simp add: day_of_month_def)
  qed
  have s22: ?thesis if h: "y < 337"
  proof (cases "y < 336")
    case True
    then show ?thesis by (rule s21)
  next
    case False
    then have "y = 336" using h by linarith
    then show ?thesis by (simp add: day_of_month_def)
  qed
  have s23: ?thesis if h: "y < 365"
  proof (cases "y < 337")
    case True
    then show ?thesis by (rule s22)
  next
    case False
    have d0: "(5 * y + 2) div 153 = 11"
      using False h by (intro div_in_range; simp)
    have d1: "(5 * (y + 1) + 2) div 153 = 11"
      using False h by (intro div_in_range; simp)
    show ?thesis using False h d0 d1 by (simp add: day_of_month_def)
  qed
  show ?thesis using assms by (intro s23)
qed

lemma day_of_month_year_end:
  "day_of_month 0 = 1" "day_of_month 364 = 28" "day_of_month 365 = 29"
  by (simp_all add: day_of_month_def)

lemma day_of_cycle_year_step:
  assumes "0 \<le> q" and "q < 1460"
  shows "(day_of_cycle_year (q + 1) = day_of_cycle_year q + 1 \<and> 0 \<le> day_of_cycle_year q \<and>
          day_of_cycle_year q < 365) \<or>
         (day_of_cycle_year (q + 1) = 0 \<and> day_of_cycle_year q = 364)"
proof -
  have s1: ?thesis if h: "q < 364"
  proof (cases "q < 0")
    case True
    then show ?thesis using assms by simp
  next
    case False
    have d0: "q div 365 = 0"
      using False h by (intro div_in_range; simp)
    have d1: "(q + 1) div 365 = 0"
      using False h by (intro div_in_range; simp)
    show ?thesis using False h d0 d1 by (simp add: day_of_cycle_year_def)
  qed
  have s2: ?thesis if h: "q < 365"
  proof (cases "q < 364")
    case True
    then show ?thesis by (rule s1)
  next
    case False
    then have "q = 364" using h by linarith
    then show ?thesis by (simp add: day_of_cycle_year_def)
  qed
  have s3: ?thesis if h: "q < 729"
  proof (cases "q < 365")
    case True
    then show ?thesis by (rule s2)
  next
    case False
    have d0: "q div 365 = 1"
      using False h by (intro div_in_range; simp)
    have d1: "(q + 1) div 365 = 1"
      using False h by (intro div_in_range; simp)
    show ?thesis using False h d0 d1 by (simp add: day_of_cycle_year_def)
  qed
  have s4: ?thesis if h: "q < 730"
  proof (cases "q < 729")
    case True
    then show ?thesis by (rule s3)
  next
    case False
    then have "q = 729" using h by linarith
    then show ?thesis by (simp add: day_of_cycle_year_def)
  qed
  have s5: ?thesis if h: "q < 1094"
  proof (cases "q < 730")
    case True
    then show ?thesis by (rule s4)
  next
    case False
    have d0: "q div 365 = 2"
      using False h by (intro div_in_range; simp)
    have d1: "(q + 1) div 365 = 2"
      using False h by (intro div_in_range; simp)
    show ?thesis using False h d0 d1 by (simp add: day_of_cycle_year_def)
  qed
  have s6: ?thesis if h: "q < 1095"
  proof (cases "q < 1094")
    case True
    then show ?thesis by (rule s5)
  next
    case False
    then have "q = 1094" using h by linarith
    then show ?thesis by (simp add: day_of_cycle_year_def)
  qed
  have s7: ?thesis if h: "q < 1459"
  proof (cases "q < 1095")
    case True
    then show ?thesis by (rule s6)
  next
    case False
    have d0: "q div 365 = 3"
      using False h by (intro div_in_range; simp)
    have d1: "(q + 1) div 365 = 3"
      using False h by (intro div_in_range; simp)
    show ?thesis using False h d0 d1 by (simp add: day_of_cycle_year_def)
  qed
  have s8: ?thesis if h: "q < 1460"
  proof (cases "q < 1459")
    case True
    then show ?thesis by (rule s7)
  next
    case False
    then have "q = 1459" using h by linarith
    then show ?thesis by (simp add: day_of_cycle_year_def)
  qed
  show ?thesis using assms by (intro s8)
qed


lemma mod_succ:
  fixes a n :: int
  assumes "0 < n"
  shows "(a + 1) mod n = (if a mod n = n - 1 then 0 else a mod n + 1)"
proof (cases "a mod n = n - 1")
  case True
  have "n * (a div n) + a mod n = a" by simp
  moreover have "n * (a div n + 1) = n * (a div n) + n" by (simp add: distrib_left)
  ultimately have "a + 1 = n * (a div n + 1) + 0"
    using True by linarith
  then have "(a + 1) mod n = 0"
    using assms by (intro int_mod_pos_eq [where q = "a div n + 1"]) simp_all
  then show ?thesis using True by simp
next
  case False
  have r: "0 \<le> a mod n" "a mod n < n" using assms by simp_all
  have "a + 1 = n * (a div n) + (a mod n + 1)" by simp
  moreover have "a mod n + 1 < n" using False r by linarith
  ultimately have "(a + 1) mod n = a mod n + 1"
    using r by (intro int_mod_pos_eq [where q = "a div n"]) simp_all
  then show ?thesis using False by simp
qed

lemma day_of_cycle_year_bounds:
  "day_of_cycle_year 0 = 0" "day_of_cycle_year 1459 = 364" "day_of_cycle_year 1460 = 365"
  by (simp_all add: day_of_cycle_year_def)

lemma day_of_century_year_step:
  assumes "0 \<le> c" and "c < 36524"
  shows "(day_of_century_year (c + 1) = day_of_century_year c + 1 \<and> 0 \<le> day_of_century_year c \<and>
          day_of_century_year c < 365) \<or>
         (day_of_century_year (c + 1) = 0 \<and>
          (day_of_century_year c = 364 \<or> day_of_century_year c = 365))"
proof (cases "c mod 1461 = 1460")
  case True
  then have "(c + 1) mod 1461 = 0" by (simp add: mod_succ)
  then show ?thesis using True by (simp add: day_of_century_year_def day_of_cycle_year_bounds)
next
  case False
  have r: "0 \<le> c mod 1461" "c mod 1461 < 1460"
    using False pos_mod_bound [of 1461 c] by simp_all
  have "(c + 1) mod 1461 = c mod 1461 + 1" using False by (simp add: mod_succ)
  then show ?thesis
    using day_of_cycle_year_step [OF r] by (auto simp: day_of_century_year_def)
qed

lemma day_of_century_year_bounds:
  "day_of_century_year 0 = 0" "day_of_century_year 36523 = 364" "day_of_century_year 36524 = 365"
  by (simp_all add: day_of_century_year_def day_of_cycle_year_def)

lemma day_of_march_year_century:
  assumes "0 \<le> e" and "e < 146096"
  shows "day_of_march_year e = day_of_century_year (e mod 36524)"
proof -
  have "e div 36524 \<le> 3" using assms by arith
  moreover have "0 \<le> e div 36524" using assms by simp
  ultimately have "min 3 (e div 36524) = e div 36524" by simp
  moreover have "e - 36524 * (e div 36524) = e mod 36524"
    by (simp add: minus_mult_div_eq_mod)
  ultimately show ?thesis by (simp add: day_of_march_year_def)
qed


lemma day_of_march_year_step:
  assumes "0 \<le> e" and "e < 146097"
  shows "(day_of_march_year ((e + 1) mod 146097) = day_of_march_year e + 1 \<and>
          0 \<le> day_of_march_year e \<and> day_of_march_year e < 365) \<or>
         (day_of_march_year ((e + 1) mod 146097) = 0 \<and>
          (day_of_march_year e = 364 \<or> day_of_march_year e = 365))"
proof -
  consider "e = 146096" | "e = 146095" | "e < 146095" using assms by linarith
  then show ?thesis
  proof cases
    case 1
    then show ?thesis
      by (simp add: day_of_march_year_def day_of_century_year_def day_of_cycle_year_def)
  next
    case 2
    then show ?thesis
      by (simp add: day_of_march_year_def day_of_century_year_def day_of_cycle_year_def)
  next
    case 3
    have e1: "(e + 1) mod 146097 = e + 1" using assms 3 by simp
    have m: "day_of_march_year e = day_of_century_year (e mod 36524)"
      using assms 3 by (intro day_of_march_year_century) simp_all
    have m1: "day_of_march_year (e + 1) = day_of_century_year ((e + 1) mod 36524)"
      using assms 3 by (intro day_of_march_year_century) simp_all
    show ?thesis
    proof (cases "e mod 36524 = 36523")
      case True
      then have "(e + 1) mod 36524 = 0" by (simp add: mod_succ)
      then show ?thesis using True by (simp add: e1 m m1 day_of_century_year_bounds)
    next
      case False
      have r: "0 \<le> e mod 36524" "e mod 36524 < 36524"
        using pos_mod_bound [of 36524 e] by simp_all
      have "(e + 1) mod 36524 = e mod 36524 + 1" using False by (simp add: mod_succ)
      then show ?thesis
        using day_of_century_year_step [OF r] by (simp add: e1 m m1)
    qed
  qed
qed

lemma day_of_era_succ: "day_of_era (d + 1) = (day_of_era d + 1) mod 146097"
  unfolding day_of_era_def by (simp add: mod_simps add.commute add.left_commute)

lemma day_of_era_bounds: "0 \<le> day_of_era d" "day_of_era d < 146097"
  by (simp_all add: day_of_era_def)

lemma DateFromDay_step:
  "DateFromDay (d + 1) = DateFromDay d + 1 \<or> (DateFromDay (d + 1) = 1 \<and> 28 \<le> DateFromDay d)"
proof -
  let ?y = "day_of_march_year (day_of_era d)"
  let ?y' = "day_of_march_year (day_of_era (d + 1))"
  have "(?y' = ?y + 1 \<and> 0 \<le> ?y \<and> ?y < 365) \<or> (?y' = 0 \<and> (?y = 364 \<or> ?y = 365))"
    using day_of_march_year_step [OF day_of_era_bounds, of d] by (simp add: day_of_era_succ)
  then consider "?y' = ?y + 1 \<and> 0 \<le> ?y \<and> ?y < 365" | "?y' = 0 \<and> ?y = 364" | "?y' = 0 \<and> ?y = 365"
    by blast
  then show ?thesis
  proof cases
    case 1
    then show ?thesis using day_of_month_step [of ?y] by (simp add: DateFromDay_def)
  next
    case 2
    then show ?thesis by (simp add: DateFromDay_def day_of_month_year_end)
  next
    case 3
    then show ?thesis by (simp add: DateFromDay_def day_of_month_year_end)
  qed
qed

lemma DateFromDay_ahead:
  "k \<le> 27 \<Longrightarrow>
   DateFromDay (d + int k) = DateFromDay d + int k \<or>
   DateFromDay (d + int k) + 28 \<le> DateFromDay d + int k"
proof (induction k)
  case 0
  then show ?case by simp
next
  case (Suc k)
  have s: "DateFromDay (d + int k + 1) = DateFromDay (d + int k) + 1 \<or>
           (DateFromDay (d + int k + 1) = 1 \<and> 28 \<le> DateFromDay (d + int k))"
    by (rule DateFromDay_step)
  have e: "d + int (Suc k) = d + int k + 1" by simp
  from Suc have ih: "DateFromDay (d + int k) = DateFromDay d + int k \<or>
      DateFromDay (d + int k) + 28 \<le> DateFromDay d + int k" by simp
  show ?case unfolding e using s ih by auto
qed

lemma DateFromDay_near:
  assumes "\<bar>a - b\<bar> < 28"
  shows "DateFromDay a = DateFromDay b \<longleftrightarrow> a = b"
proof
  assume eq: "DateFromDay a = DateFromDay b"
  show "a = b"
  proof (rule ccontr)
    assume ne: "a \<noteq> b"
    have diff: False if lt: "x < y" and n: "y - x < 28" and q: "DateFromDay x = DateFromDay y" for x y
    proof -
      define k where "k = nat (y - x)"
      have k: "k \<le> 27" "0 < k" "y = x + int k" using lt n by (simp_all add: k_def)
      show False using DateFromDay_ahead [OF k(1), of x] k q by auto
    qed
    show False
    proof (cases "a < b")
      case True
      then show ?thesis using diff [of a b] assms eq by simp
    next
      case False
      then have "b < a" using ne by simp
      then show ?thesis using diff [of b a] assms eq by simp
    qed
  qed
next
  assume "a = b"
  then show "DateFromDay a = DateFromDay b" by simp
qed

section \<open>Properties of the arithmetic of doubles\<close>

text \<open>
  A real of the form \<open>m * 2^k\<close> with \<open>|m| < 2^53\<close>, \<open>k\<close> at least \<open>-1074\<close> and
  magnitude below \<open>2^1024\<close> is a double: rounding leaves it as it is. In the normal
  range rounding moves a real by at most half a quantum, and the half of the rounded
  sum is again a double.
\<close>

lemma bit_length_bounds:
  "0 < n \<Longrightarrow> 2 ^ (bit_length n - 1) \<le> n \<and> n < 2 ^ bit_length n"
proof (induction n rule: bit_length.induct)
  case (1 n)
  show ?case
  proof (cases "n div 2 = 0")
    case True
    then have "n = 1" using "1.prems" by linarith
    then show ?thesis by (simp add: bit_length.simps)
  next
    case False
    have ih: "2 ^ (bit_length (n div 2) - 1) \<le> n div 2 \<and> n div 2 < 2 ^ bit_length (n div 2)"
      using "1.IH" False "1.prems" by simp
    have pos: "0 < bit_length (n div 2)" using False by (subst bit_length.simps) simp
    have bl: "bit_length n = Suc (bit_length (n div 2))"
      using "1.prems" by (subst bit_length.simps) simp
    have p: "(2::nat) ^ bit_length (n div 2) = 2 * 2 ^ (bit_length (n div 2) - 1)"
      using pos by (cases "bit_length (n div 2)") simp_all
    have d: "2 * (n div 2) \<le> n" "n < 2 * (n div 2) + 2" by linarith+
    have lo: "(2::nat) ^ bit_length (n div 2) \<le> n" using ih p d by linarith
    have hi: "n < 2 * 2 ^ bit_length (n div 2)" using ih d by linarith
    show ?thesis using lo hi by (simp add: bl)
  qed
qed

lemma bit_length_pos: "0 < n \<Longrightarrow> 0 < bit_length n"
  by (subst bit_length.simps) simp

lemma binade_bounds:
  assumes "x \<noteq> 0"
  shows "2 powi binade x \<le> \<bar>x\<bar>" and "\<bar>x\<bar> < 2 powi (binade x + 1)"
proof -
  let ?a = "\<bar>x\<bar>"
  have apos: "0 < ?a" using assms by simp
  have "2 powi binade x \<le> ?a \<and> ?a < 2 powi (binade x + 1)"
  proof (cases "1 \<le> ?a")
    case True
    let ?n = "nat \<lfloor>?a\<rfloor>"
    have n: "0 < ?n" using True by simp
    let ?L = "bit_length ?n"
    have L: "0 < ?L" using n by (rule bit_length_pos)
    have b: "binade x = int ?L - 1" using True by (simp add: binade_def)
    have bb: "2 ^ (?L - 1) \<le> ?n" "?n < 2 ^ ?L" using bit_length_bounds [OF n] by simp_all
    have e1: "(2::real) powi (int ?L - 1) = 2 ^ (?L - 1)"
      using L by (simp add: power_int_def nat_diff_distrib')
    have e2: "(2::real) powi (int ?L - 1 + 1) = 2 ^ ?L" by simp
    have rn: "real ?n = of_int \<lfloor>?a\<rfloor>" using True by simp
    have A: "real (2 ^ (?L - 1)) \<le> real ?n" using bb(1) by (rule of_nat_mono)
    have B: "real ?n \<le> ?a" unfolding rn by (rule of_int_floor_le)
    have lo: "2 ^ (?L - 1) \<le> ?a" using order_trans [OF A B] by simp
    have "?n + 1 \<le> 2 ^ ?L" using bb(2) by linarith
    then have "real (?n + 1) \<le> real (2 ^ ?L)" by (rule of_nat_mono)
    moreover have "?a < real (?n + 1)" using rn by (simp; linarith)
    ultimately have hi: "?a < 2 ^ ?L" by simp
    show ?thesis unfolding b e1 e2 using lo hi by simp
  next
    case False
    define y where "y = 1 / ?a"
    have y1: "1 < y" using False apos by (simp add: y_def)
    define m where "m = \<lceil>y\<rceil>"
    have m2: "2 \<le> m" unfolding m_def using y1 by linarith
    have my: "y \<le> of_int m" "of_int m - 1 < y" unfolding m_def by linarith+
    define n where "n = nat (m - 1)"
    have n: "0 < n" using m2 by (simp add: n_def)
    have rn: "real n = of_int m - 1" using m2 by (simp add: n_def)
    define L where "L = bit_length n"
    have L: "0 < L" unfolding L_def using n by (rule bit_length_pos)
    have b: "binade x = - int L"
      using False by (simp add: binade_def L_def n_def m_def y_def)
    have bb: "2 ^ (L - 1) \<le> n" "n < 2 ^ L"
      using bit_length_bounds [OF n] by (simp_all add: L_def)
    have "n + 1 \<le> 2 ^ L" using bb(2) by linarith
    then have "real (n + 1) \<le> real (2 ^ L)" by (rule of_nat_mono)
    then have "of_int m \<le> (2::real) ^ L" using rn by simp
    then have yhi: "y \<le> 2 ^ L" using my(1) by linarith
    have "real (2 ^ (L - 1)) \<le> real n" using bb(1) by (rule of_nat_mono)
    then have "(2::real) ^ (L - 1) \<le> of_int m - 1" using rn by simp
    then have ylo: "2 ^ (L - 1) < y" using my(2) by linarith
    have lo: "1 / 2 ^ L \<le> ?a"
      using yhi apos by (simp add: y_def field_simps)
    have hi: "?a < 1 / 2 ^ (L - 1)"
      using ylo apos by (simp add: y_def field_simps)
    have e1: "(2::real) powi (- int L) = 1 / 2 ^ L"
      by (simp add: power_int_minus field_simps)
    have e2: "(2::real) powi (- int L + 1) = 1 / 2 ^ (L - 1)"
      using L by (cases L) (simp_all add: power_int_minus power_int_add field_simps)
    show ?thesis unfolding b e1 e2 using lo hi by simp
  qed
  then show "2 powi binade x \<le> \<bar>x\<bar>" and "\<bar>x\<bar> < 2 powi (binade x + 1)" by simp_all
qed

lemma binade_unique:
  assumes "2 powi e \<le> \<bar>x\<bar>" and "\<bar>x\<bar> < 2 powi (e + 1)"
  shows "binade x = e"
proof -
  have nz: "x \<noteq> 0"
  proof
    assume "x = 0"
    then have "(2::real) powi e \<le> 0" using assms(1) by simp
    moreover have "0 < (2::real) powi e" by simp
    ultimately show False by linarith
  qed
  note b = binade_bounds [OF nz]
  have "(2::real) powi binade x < 2 powi (e + 1)" using b(1) assms(2) by linarith
  then have 1: "binade x < e + 1"
    by (metis linorder_not_le one_less_numeral_iff power_int_increasing less_eq_real_def semiring_norm(76) not_less)
  have "(2::real) powi e < 2 powi (binade x + 1)" using b(2) assms(1) by linarith
  then have 2: "e < binade x + 1"
    by (metis linorder_not_le one_less_numeral_iff power_int_increasing less_eq_real_def semiring_norm(76) not_less)
  show ?thesis using 1 2 by simp
qed


lemma pow2_less_imp: "(2::real) powi a < 2 powi b \<Longrightarrow> a < b"
  by (metis linorder_not_le one_less_numeral_iff power_int_increasing less_eq_real_def semiring_norm(76) not_less)

lemma pow2_le_imp: "(2::real) powi a \<le> 2 powi b \<Longrightarrow> a \<le> b"
  by (metis linorder_not_le one_less_numeral_iff power_int_strict_increasing semiring_norm(76))

lemma pow2_split: "(2::real) powi (a + b) = 2 powi a * 2 powi b"
  by (simp add: power_int_add)

lemma pow2_diff: "(2::real) powi (a - b) = 2 powi a / 2 powi b"
  by (simp add: power_int_diff)

lemma round_half_even_of_int: "round_half_even (of_int n) = n"
  by (simp add: round_half_even_def)

lemma round_half_even_floor:
  "\<lfloor>y\<rfloor> \<le> round_half_even y" "round_half_even y \<le> \<lfloor>y\<rfloor> + 1"
  by (simp_all add: round_half_even_def Let_def)

lemma round_half_even_near: "\<bar>of_int (round_half_even y) - y\<bar> \<le> 1 / 2"
proof -
  have "of_int \<lfloor>y\<rfloor> \<le> y" "y < of_int \<lfloor>y\<rfloor> + 1" by linarith+
  then show ?thesis by (auto simp: round_half_even_def Let_def)
qed

lemma round_double_exact:
  assumes x: "x = of_int m * 2 powi k" and m: "\<bar>m\<bar> < 2 ^ 53" and k: "- 1074 \<le> k"
    and fin: "\<bar>x\<bar> < 2 powi 1024"
  shows "round_double x = Finite x"
proof (cases "x = 0")
  case True
  then show ?thesis by (simp add: round_double_def)
next
  case False
  define e where "e = max (binade x) (- 1022)"
  have "\<bar>x\<bar> = of_int \<bar>m\<bar> * 2 powi k" by (simp add: x abs_mult)
  moreover have "real_of_int \<bar>m\<bar> < 2 ^ 53" using m by (metis of_int_less_numeral_power_cancel_iff)
  ultimately have "\<bar>x\<bar> < 2 ^ 53 * 2 powi k" by (simp add: mult_strict_right_mono)
  also have "\<dots> = 2 powi (53 + k)" by (simp add: pow2_split)
  finally have "(2::real) powi binade x < 2 powi (53 + k)"
    using binade_bounds(1) [OF False] by linarith
  then have "binade x < 53 + k" by (rule pow2_less_imp)
  then have ek: "e - 52 \<le> k" using k by (simp add: e_def)
  define j where "j = nat (k - (e - 52))"
  have kj: "k = (e - 52) + int j" using ek by (simp add: j_def)
  have "x / 2 powi (e - 52) = of_int m * 2 powi (int j)"
    unfolding x by (subst kj) (simp add: pow2_split)
  also have "\<dots> = of_int (m * 2 ^ j)" by simp
  finally have q: "x / 2 powi (e - 52) = of_int (m * 2 ^ j)" .
  have r: "of_int (round_half_even (x / 2 powi (e - 52))) * 2 powi (e - 52) = x"
    unfolding q round_half_even_of_int unfolding q [symmetric] by simp
  show ?thesis
    using False fin r by (simp add: round_double_def Let_def e_def [symmetric])
qed

lemma round_double_near:
  assumes lo: "2 powi (- 1021) \<le> \<bar>x\<bar>" and hi: "\<bar>x\<bar> \<le> 2 powi 1023"
  shows "\<exists>n e. round_double x = Finite (of_int n * 2 powi (e - 52)) \<and> \<bar>n\<bar> \<le> 2 ^ 53 \<and>
           - 1021 \<le> e \<and> e \<le> 1023 \<and> 2 powi e \<le> \<bar>x\<bar> \<and>
           \<bar>of_int n * 2 powi (e - 52) - x\<bar> \<le> 2 powi (e - 53)"
proof -
  have "0 < (2::real) powi (- 1021)" by simp
  then have nz: "x \<noteq> 0" using lo by auto
  define e where "e = binade x"
  have b: "2 powi e \<le> \<bar>x\<bar>" "\<bar>x\<bar> < 2 powi (e + 1)"
    using binade_bounds [OF nz] by (simp_all add: e_def)
  have "(2::real) powi e \<le> 2 powi 1023" using b(1) hi by linarith
  then have e_hi: "e \<le> 1023" using pow2_le_imp [of e 1023] by simp
  have "(2::real) powi (- 1021) < 2 powi (e + 1)" using b(2) lo by linarith
  then have e_lo: "- 1021 \<le> e" using pow2_less_imp [of "- 1021" "e + 1"] by simp
  define q :: real where "q = 2 powi (e - 52)"
  have qpos: "0 < q" by (simp add: q_def)
  define n where "n = round_half_even (x / q)"
  have "e + 1 = 53 + (e - 52)" by simp
  then have "(2::real) powi (e + 1) = 2 powi 53 * 2 powi (e - 52)"
    by (simp only: pow2_split)
  then have q53: "2 powi (e + 1) = 2 ^ 53 * q"
    unfolding q_def by simp
  have "\<bar>x / q\<bar> < 2 ^ 53"
    using b(2) qpos unfolding q53 by (simp add: field_simps abs_mult)
  then have y: "- (2 ^ 53) < x / q" "x / q < 2 ^ 53" by linarith+
  define f where "f = \<lfloor>x / q\<rfloor>"
  have f1: "- (2 ^ 53) \<le> f" unfolding f_def using y(1) by (simp add: le_floor_iff)
  have f2: "f < 2 ^ 53" unfolding f_def using y(2) by (simp add: floor_less_iff)
  have "f \<le> n" "n \<le> f + 1"
    using round_half_even_floor [of "x / q"] by (simp_all add: n_def f_def)
  then have nb: "\<bar>n\<bar> \<le> 2 ^ 53" using f1 f2 by linarith
  have "\<bar>of_int n - x / q\<bar> \<le> 1 / 2" unfolding n_def by (rule round_half_even_near)
  then have "\<bar>of_int n - x / q\<bar> * q \<le> 1 / 2 * q"
    using qpos by (simp add: mult_right_mono)
  moreover have "(of_int n - x / q) * q = of_int n * q - x"
    using qpos by (simp add: field_simps)
  then have "\<bar>of_int n - x / q\<bar> * q = \<bar>of_int n * q - x\<bar>"
    using qpos by (metis abs_mult abs_of_pos)
  moreover have h: "1 / 2 * q = 2 powi (e - 53)"
    unfolding q_def by (simp add: power_int_diff)
  ultimately have err: "\<bar>of_int n * q - x\<bar> \<le> 2 powi (e - 53)" by simp
  have "(2::real) powi (e - 53) \<le> 2 powi 970"
    using e_hi by (intro power_int_increasing) simp_all
  then have "\<bar>of_int n * q\<bar> \<le> 2 powi 1023 + 2 powi 970" using err hi by linarith
  also have "\<dots> < 2 powi 1024" by simp
  finally have fin: "\<bar>of_int n * q\<bar> < 2 powi 1024" .
  have "max (binade x) (- 1022) = e" using e_lo by (simp add: e_def)
  then have "round_double x = Finite (of_int n * q)"
    using nz fin by (simp add: round_double_def Let_def n_def q_def)
  then show ?thesis using nb e_lo e_hi b(1) err unfolding q_def by blast
qed


lemma average_double_exact:
  assumes x: "x = of_int m * 2 powi k" and m: "\<bar>m\<bar> < 2 ^ 53" and k: "- 1073 \<le> k"
    and fin: "\<bar>x\<bar> < 2 powi 1024"
  shows "Number_div_2 (round_double x) = Finite (x / 2)"
proof -
  have r: "round_double x = Finite x"
    by (rule round_double_exact [OF x m _ fin]) (use k in simp)
  have h: "x / 2 = of_int m * 2 powi (k - 1)"
    unfolding x by (simp add: power_int_diff)
  have "\<bar>x / 2\<bar> \<le> \<bar>x\<bar>" by simp
  then have "\<bar>x / 2\<bar> < 2 powi 1024" using fin by linarith
  then have "round_double (x / 2) = Finite (x / 2)"
    using round_double_exact [OF h m] k by simp
  then show ?thesis by (simp add: r Number_div_2_def)
qed

lemma average_double_near:
  assumes lo: "2 powi (- 1021) \<le> \<bar>x\<bar>" and hi: "\<bar>x\<bar> \<le> 2 powi 1023"
  shows "\<exists>a. Number_div_2 (round_double x) = Finite a \<and>
           \<bar>a - x / 2\<bar> \<le> 2 powi (- 54) * \<bar>x\<bar>"
proof -
  obtain n e where rd: "round_double x = Finite (of_int n * 2 powi (e - 52))"
    and nb: "\<bar>n\<bar> \<le> 2 ^ 53" and e_lo: "- 1021 \<le> e" and e_hi: "e \<le> 1023"
    and ex: "2 powi e \<le> \<bar>x\<bar>"
    and err: "\<bar>of_int n * 2 powi (e - 52) - x\<bar> \<le> 2 powi (e - 53)"
    using round_double_near [OF lo hi] by blast
  define r :: real where "r = of_int n * 2 powi (e - 52)"
  have "real_of_int \<bar>n\<bar> \<le> 2 ^ 53" using nb by (metis of_int_le_numeral_power_cancel_iff)
  then have A: "real_of_int \<bar>n\<bar> * 2 powi (e - 53) \<le> 2 ^ 53 * 2 powi (e - 53)"
    by (intro mult_right_mono) simp_all
  have B: "(2::real) ^ 53 * 2 powi (e - 53) = 2 powi e"
  proof -
    have "(2::real) powi (53 + (e - 53)) = 2 powi 53 * 2 powi (e - 53)" by (rule pow2_split)
    then show ?thesis by simp
  qed
  have half: "r / 2 = of_int n * 2 powi (e - 53)"
  proof -
    have "(2::real) powi ((e - 53) + 1) = 2 powi (e - 53) * 2 powi 1" by (rule pow2_split)
    then show ?thesis by (simp add: r_def)
  qed
  have "\<bar>r / 2\<bar> = real_of_int \<bar>n\<bar> * 2 powi (e - 53)"
    unfolding half by (simp add: abs_mult)
  then have "\<bar>r / 2\<bar> \<le> 2 powi e" using A B by linarith
  moreover have "(2::real) powi e \<le> 2 powi 1023"
    using e_hi by (intro power_int_increasing) simp_all
  moreover have "(2::real) powi 1023 < 2 powi 1024" by simp
  ultimately have fin: "\<bar>r / 2\<bar> < 2 powi 1024" by linarith
  have ex2: "round_double (r / 2) = Finite (r / 2)"
  proof (cases "\<bar>n\<bar> < 2 ^ 53")
    case True
    show ?thesis
      by (rule round_double_exact [OF half True _ fin]) (use e_lo in simp)
  next
    case False
    then have "\<bar>n\<bar> = 2 ^ 53" using nb by linarith
    then have "n = 9007199254740992 \<or> n = - 9007199254740992" by (simp; linarith)
    then have n2: "n = 2 * (n div 2)" and nd: "\<bar>n div 2\<bar> < 2 ^ 53" by auto
    have h2: "r / 2 = of_int (n div 2) * 2 powi (e - 52)"
      unfolding r_def by (subst n2) simp
    show ?thesis
      by (rule round_double_exact [OF h2 nd _ fin]) (use e_lo in simp)
  qed
  have "\<bar>r / 2 - x / 2\<bar> = \<bar>r - x\<bar> / 2" by (simp add: diff_divide_distrib [symmetric])
  also have "\<dots> \<le> 2 powi (e - 53) / 2" using err by (simp add: r_def)
  also have "\<dots> = 2 powi (- 54) * 2 powi e"
  proof -
    have "(2::real) powi ((- 54) + e) = 2 powi (- 54) * 2 powi e" by (rule pow2_split)
    moreover have "(2::real) powi (((- 54) + e) + 1) = 2 powi ((- 54) + e) * 2 powi 1"
      by (rule pow2_split)
    moreover have "(- 54) + e + 1 = e - 53" by simp
    ultimately have "(2::real) powi (e - 53) = 2 powi (- 54) * 2 powi e * 2" by simp
    then show ?thesis by simp
  qed
  also have "\<dots> \<le> 2 powi (- 54) * \<bar>x\<bar>"
    using ex by (intro mult_left_mono) simp_all
  finally have bound: "\<bar>r / 2 - x / 2\<bar> \<le> 2 powi (- 54) * \<bar>x\<bar>" .
  have "Number_div_2 (round_double x) = Finite (r / 2)"
    unfolding rd Number_div_2_def using ex2 by (simp add: r_def)
  then show ?thesis using bound by blast
qed

section \<open>Properties of the chart transform\<close>

lemma toChartData_map:
  "toChartData env grp = map (toChartPoint env grp (ts env (hd (records grp)))) (records grp)"
  by (cases "records grp") (simp_all add: toChartData_def ts_def)

lemma minutesFromStart_toChartPoint:
  "minutesFromStart (toChartPoint env grp t0 r) = Math_round (real_of_int (ts env r - t0) / 60000)"
  by (simp add: toChartPoint_def ts_def Let_def)

lemma Math_round_nearest: "\<bar>real_of_int (Math_round x) - x\<bar> \<le> 1 / 2"
  unfolding Math_round_def by linarith

lemma Math_round_mono: "x \<le> y \<Longrightarrow> Math_round x \<le> Math_round y"
  unfolding Math_round_def by (simp add: floor_mono)

lemma Math_round_div: "Math_round (real_of_int d / 60000) = (d + 30000) div 60000"
proof -
  have "real_of_int d / 60000 + 1 / 2 = real_of_int (d + 30000) / real_of_int 60000" by simp
  then show ?thesis unfolding Math_round_def by (simp only: floor_divide_of_int_eq)
qed

text \<open>
  C5. \<open>toChartData\<close> returns one chart point per record of the group, in the order of
  the records: the point at each position is built from the record at that position
  and carries its date string and readings. The empty group gives the empty sequence,
  and the first point of a non-empty group has \<open>minutesFromStart\<close> 0.
\<close>

theorem toChartData_pointwise:
  "toChartData env grp = map (toChartPoint env grp (ts env (hd (records grp)))) (records grp) \<and>
   length (toChartData env grp) = length (records grp) \<and>
   map dateStr (toChartData env grp) = map date (records grp) \<and>
   map point_left (toChartData env grp) = map left (records grp) \<and>
   map point_right (toChartData env grp) = map right (records grp) \<and>
   (records grp = [] \<longrightarrow> toChartData env grp = []) \<and>
   (records grp \<noteq> [] \<longrightarrow> minutesFromStart (hd (toChartData env grp)) = 0)"
proof -
  have m: "toChartData env grp = map (toChartPoint env grp (ts env (hd (records grp)))) (records grp)"
    by (rule toChartData_map)
  have "records grp \<noteq> [] \<longrightarrow> minutesFromStart (hd (toChartData env grp)) = 0"
    unfolding m by (cases "records grp") (simp_all add: minutesFromStart_toChartPoint Math_round_def)
  moreover have "records grp = [] \<longrightarrow> toChartData env grp = []"
    by (simp add: toChartData_def)
  moreover have "map dateStr (toChartData env grp) = map date (records grp)"
    "map point_left (toChartData env grp) = map left (records grp)"
    "map point_right (toChartData env grp) = map right (records grp)"
    unfolding m by (simp_all add: toChartPoint_def Let_def split_def)
  moreover have "length (toChartData env grp) = length (records grp)"
    unfolding m by simp
  ultimately show ?thesis using m by blast
qed

theorem toChartData_pointwise_witness:
  "records (sample_chart_group\<lparr>records := []\<rparr>) = [] \<and>
   toChartData sample_runtime (sample_chart_group\<lparr>records := []\<rparr>) = [] \<and>
   records sample_chart_group \<noteq> [] \<and>
   length (toChartData sample_runtime sample_chart_group) = 3 \<and>
   map dateStr (toChartData sample_runtime sample_chart_group)
     = [''2024-01-05T08:00:00.000Z'', ''2024-01-05T08:01:30.000Z'', ''2024-01-05T18:00:00.000Z''] \<and>
   minutesFromStart (hd (toChartData sample_runtime sample_chart_group)) = 0"
proof -
  note e = toChartData_pointwise [of sample_runtime "sample_chart_group\<lparr>records := []\<rparr>"]
  note t = toChartData_pointwise [of sample_runtime sample_chart_group]
  have h0: "records (sample_chart_group\<lparr>records := []\<rparr>) = []" by simp
  have h1: "records sample_chart_group \<noteq> []" by (simp add: sample_chart_group_def)
  have p0: "toChartData sample_runtime (sample_chart_group\<lparr>records := []\<rparr>) = []"
    using e h0 by blast
  have p1: "minutesFromStart (hd (toChartData sample_runtime sample_chart_group)) = 0"
    using t h1 by blast
  have "length (toChartData sample_runtime sample_chart_group) = length (records sample_chart_group)"
    using t by blast
  then have p2: "length (toChartData sample_runtime sample_chart_group) = 3"
    by (simp add: sample_chart_group_def)
  have "map dateStr (toChartData sample_runtime sample_chart_group)
      = map date (records sample_chart_group)"
    using t by blast
  then have p3: "map dateStr (toChartData sample_runtime sample_chart_group)
     = [''2024-01-05T08:00:00.000Z'', ''2024-01-05T08:01:30.000Z'', ''2024-01-05T18:00:00.000Z'']"
    by (simp add: sample_chart_group_def sample_record_def)
  show ?thesis using h0 h1 p0 p1 p2 p3 by blast
qed

lemma average_toChartData_nth:
  "i < length (records grp) \<Longrightarrow>
   average (toChartData env grp ! i)
     = Number_div_2 (Number_add (left (records grp ! i)) (right (records grp ! i)))"
  by (simp add: toChartData_map toChartPoint_def Let_def split_def)

text \<open>
  C6, as it holds of the code. The average of every chart point is the value of
  \<open>(left + right) / 2\<close> in the arithmetic of doubles: the sum of the two readings of
  its record, rounded once to the nearest double, and halved; nothing else is rounded.
  It is the exact mean of the two readings whenever their sum is itself a double (of
  the form \<open>m * 2^k\<close> with \<open>|m| < 2^53\<close>, as for readings in whole or half units), and
  for any sum of magnitude between \<open>2^-1021\<close> and \<open>2^1023\<close> it differs from the exact mean
  by at most \<open>2^-54\<close> times the magnitude of the sum.
\<close>

theorem toChartData_average:
  "map average (toChartData env grp)
     = map (\<lambda>r. Number_div_2 (Number_add (left r) (right r))) (records grp) \<and>
   (i < length (records grp) \<and>
    left (records grp ! i) + right (records grp ! i) = of_int m * 2 powi k \<and>
    \<bar>m\<bar> < 2 ^ 53 \<and> - 1073 \<le> k \<and>
    \<bar>left (records grp ! i) + right (records grp ! i)\<bar> < 2 powi 1024 \<longrightarrow>
      average (toChartData env grp ! i)
        = Finite ((left (records grp ! i) + right (records grp ! i)) / 2)) \<and>
   (i < length (records grp) \<and>
    2 powi (- 1021) \<le> \<bar>left (records grp ! i) + right (records grp ! i)\<bar> \<and>
    \<bar>left (records grp ! i) + right (records grp ! i)\<bar> \<le> 2 powi 1023 \<longrightarrow>
      (\<exists>a. average (toChartData env grp ! i) = Finite a \<and>
           \<bar>a - (left (records grp ! i) + right (records grp ! i)) / 2\<bar>
             \<le> 2 powi (- 54) * \<bar>left (records grp ! i) + right (records grp ! i)\<bar>))"
proof (intro conjI impI)
  show "map average (toChartData env grp)
     = map (\<lambda>r. Number_div_2 (Number_add (left r) (right r))) (records grp)"
    by (simp add: toChartData_map toChartPoint_def Let_def split_def)
next
  assume a: "i < length (records grp) \<and>
    left (records grp ! i) + right (records grp ! i) = of_int m * 2 powi k \<and>
    \<bar>m\<bar> < 2 ^ 53 \<and> - 1073 \<le> k \<and>
    \<bar>left (records grp ! i) + right (records grp ! i)\<bar> < 2 powi 1024"
  then have "Number_div_2 (round_double (left (records grp ! i) + right (records grp ! i)))
      = Finite ((left (records grp ! i) + right (records grp ! i)) / 2)"
    using average_double_exact [of "left (records grp ! i) + right (records grp ! i)" m k]
    by blast
  then show "average (toChartData env grp ! i)
        = Finite ((left (records grp ! i) + right (records grp ! i)) / 2)"
    using a by (simp add: average_toChartData_nth Number_add_def)
next
  assume a: "i < length (records grp) \<and>
    2 powi (- 1021) \<le> \<bar>left (records grp ! i) + right (records grp ! i)\<bar> \<and>
    \<bar>left (records grp ! i) + right (records grp ! i)\<bar> \<le> 2 powi 1023"
  then have "\<exists>a. Number_div_2 (round_double (left (records grp ! i) + right (records grp ! i)))
        = Finite a \<and>
      \<bar>a - (left (records grp ! i) + right (records grp ! i)) / 2\<bar>
        \<le> 2 powi (- 54) * \<bar>left (records grp ! i) + right (records grp ! i)\<bar>"
    using average_double_near [of "left (records grp ! i) + right (records grp ! i)"] by blast
  then show "\<exists>a. average (toChartData env grp ! i) = Finite a \<and>
           \<bar>a - (left (records grp ! i) + right (records grp ! i)) / 2\<bar>
             \<le> 2 powi (- 54) * \<bar>left (records grp ! i) + right (records grp ! i)\<bar>"
    using a by (simp add: average_toChartData_nth Number_add_def)
qed

lemma decimal_readings:
  "left (hd (records decimal_readings_group)) = 8500544296661811 / 2 ^ 49"
  "right (hd (records decimal_readings_group)) = 4869517097094349 / 2 ^ 48"
  "records decimal_readings_group ! 0 = hd (records decimal_readings_group)"
  "0 < length (records decimal_readings_group)"
  by (simp_all add: decimal_readings_group_def sample_record_def)

lemma decimal_readings_are_doubles:
  "round_double (151 / 10) = Finite (8500544296661811 / 2 ^ 49)"
  "round_double (173 / 10) = Finite (4869517097094349 / 2 ^ 48)"
proof -
  have b1: "binade (151 / 10) = 3" by (rule binade_unique) simp_all
  have y1: "(151 / 10 :: real) / 2 powi (3 - 52) = 42502721483309056 / 5" by simp
  have "round_half_even (42502721483309056 / 5) = 8500544296661811"
    by (simp add: round_half_even_def Let_def)
  then have n1: "round_half_even ((151 / 10) / 2 powi (3 - 52)) = 8500544296661811"
    by (simp only: y1)
  have m1: "max (binade (151 / 10)) (- 1022) = 3" by (simp add: b1)
  have "round_double (151 / 10) = Finite (of_int 8500544296661811 * 2 powi (3 - 52))"
    unfolding round_double_def Let_def m1 n1 by simp
  then show "round_double (151 / 10) = Finite (8500544296661811 / 2 ^ 49)"
    by (simp add: power_int_minus field_simps)
  have b2: "binade (173 / 10) = 4" by (rule binade_unique) simp_all
  have y2: "(173 / 10 :: real) / 2 powi (4 - 52) = 24347585485471744 / 5" by simp
  have "round_half_even (24347585485471744 / 5) = 4869517097094349"
    by (simp add: round_half_even_def Let_def)
  then have n2: "round_half_even ((173 / 10) / 2 powi (4 - 52)) = 4869517097094349"
    by (simp only: y2)
  have m2: "max (binade (173 / 10)) (- 1022) = 4" by (simp add: b2)
  have "round_double (173 / 10) = Finite (of_int 4869517097094349 * 2 powi (4 - 52))"
    unfolding round_double_def Let_def m2 n2 by simp
  then show "round_double (173 / 10) = Finite (4869517097094349 / 2 ^ 48)"
    by (simp add: power_int_minus field_simps)
qed

lemma decimal_readings_sum:
  "Number_div_2 (Number_add (8500544296661811 / 2 ^ 49) (4869517097094349 / 2 ^ 48))
     = Finite (4559894622712627 / 2 ^ 48)"
proof -
  define x :: real where "x = 18239578490850509 / 2 ^ 49"
  have s: "8500544296661811 / 2 ^ 49 + 4869517097094349 / 2 ^ 48 = x"
    by (simp add: x_def)
  have b: "binade x = 5"
    by (rule binade_unique) (simp_all add: x_def)
  have y: "x / 2 powi (5 - 52) = 18239578490850509 / 4" by (simp add: x_def)
  have "round_half_even (18239578490850509 / 4) = 4559894622712627"
    by (simp add: round_half_even_def Let_def)
  then have n: "round_half_even (x / 2 powi (5 - 52)) = 4559894622712627"
    by (simp only: y)
  have nz: "x \<noteq> 0" by (simp add: x_def)
  have mx: "max (binade x) (- 1022) = 5" by (simp add: b)
  have "round_double x = Finite (of_int 4559894622712627 * 2 powi (5 - 52))"
    unfolding round_double_def Let_def mx n using nz by simp
  then have r: "round_double x = Finite (4559894622712627 / 2 ^ 47)"
    by (simp add: power_int_minus field_simps)
  have h: "round_double (4559894622712627 / 2 ^ 47 / 2) = Finite (4559894622712627 / 2 ^ 47 / 2)"
    by (rule round_double_exact [where m = 4559894622712627 and k = "- 48"]) simp_all
  show ?thesis unfolding Number_add_def s r by (simp add: Number_div_2_def h [simplified])
qed

text \<open>
  C6, as stated, fails on the readings 15.1 and 17.3 (the doubles nearest to them):
  their sum is not a double, so the average of the chart point, 16.2 as a double, is
  not the exact mean of the two readings.
\<close>

theorem average_exact_counterexample:
  "round_double (151 / 10) = Finite (left (hd (records decimal_readings_group))) \<and>
   round_double (173 / 10) = Finite (right (hd (records decimal_readings_group))) \<and>
   average (hd (toChartData sample_runtime decimal_readings_group))
     = Finite (4559894622712627 / 2 ^ 48) \<and>
   (left (hd (records decimal_readings_group)) + right (hd (records decimal_readings_group))) / 2
     = 18239578490850509 / 2 ^ 50 \<and>
   average (hd (toChartData sample_runtime decimal_readings_group))
     \<noteq> Finite ((left (hd (records decimal_readings_group))
                  + right (hd (records decimal_readings_group))) / 2)"
proof -
  have a: "average (hd (toChartData sample_runtime decimal_readings_group))
      = Finite (4559894622712627 / 2 ^ 48)"
    using decimal_readings_sum
    by (simp add: toChartData_map toChartPoint_def Let_def split_def
        decimal_readings_group_def sample_record_def)
  have m: "(left (hd (records decimal_readings_group))
        + right (hd (records decimal_readings_group))) / 2 = 18239578490850509 / 2 ^ 50"
    by (simp add: decimal_readings)
  have ne: "(4559894622712627 / 2 ^ 48 :: real) \<noteq> 18239578490850509 / 2 ^ 50" by simp
  show ?thesis
    unfolding a m using ne decimal_readings_are_doubles by (simp add: decimal_readings)
qed

theorem toChartData_average_witness:
  "map average (toChartData sample_runtime sample_chart_group)
     = [Finite (33 / 2), Finite (33 / 2), Finite (33 / 2)] \<and>
   average (toChartData sample_runtime sample_chart_group ! 0) = Finite ((15 + 18) / 2) \<and>
   average (toChartData sample_runtime decimal_readings_group ! 0)
     = Finite (4559894622712627 / 2 ^ 48) \<and>
   \<bar>4559894622712627 / 2 ^ 48 - (18239578490850509 / 2 ^ 49) / 2\<bar>
     \<le> 2 powi (- 54) * \<bar>18239578490850509 / 2 ^ 49 :: real\<bar>"
proof -
  note t = toChartData_average [where env = sample_runtime]
  have l0: "left (records sample_chart_group ! 0) = 15" "right (records sample_chart_group ! 0) = 18"
    "0 < length (records sample_chart_group)"
    by (simp_all add: sample_chart_group_def sample_record_def)
  have h: "0 < length (records sample_chart_group) \<and>
    left (records sample_chart_group ! 0) + right (records sample_chart_group ! 0)
      = of_int 33 * 2 powi 0 \<and>
    \<bar>33 :: int\<bar> < 2 ^ 53 \<and> - 1073 \<le> (0 :: int) \<and>
    \<bar>left (records sample_chart_group ! 0) + right (records sample_chart_group ! 0)\<bar> < 2 powi 1024"
    using l0 by simp
  have p1: "average (toChartData sample_runtime sample_chart_group ! 0) = Finite ((15 + 18) / 2)"
    using t [where grp = sample_chart_group and i = 0 and m = 33 and k = 0] h
    unfolding l0 by blast
  have e: "Number_div_2 (Number_add 15 18) = Finite (33 / 2)"
    using p1 unfolding average_toChartData_nth [OF l0(3)] l0(1,2) by simp
  have "map average (toChartData sample_runtime sample_chart_group)
      = map (\<lambda>r. Number_div_2 (Number_add (left r) (right r))) (records sample_chart_group)"
    using t [where grp = sample_chart_group] by blast
  then have p0: "map average (toChartData sample_runtime sample_chart_group)
     = [Finite (33 / 2), Finite (33 / 2), Finite (33 / 2)]"
    by (simp add: sample_chart_group_def sample_record_def e)
  have s: "left (records decimal_readings_group ! 0) + right (records decimal_readings_group ! 0)
      = 18239578490850509 / 2 ^ 49"
    by (simp add: decimal_readings)
  have p2: "average (toChartData sample_runtime decimal_readings_group ! 0)
     = Finite (4559894622712627 / 2 ^ 48)"
    unfolding average_toChartData_nth [OF decimal_readings(4)] decimal_readings(3)
      decimal_readings(1,2)
    by (rule decimal_readings_sum)
  have r: "0 < length (records decimal_readings_group) \<and>
    2 powi (- 1021) \<le> \<bar>left (records decimal_readings_group ! 0)
                         + right (records decimal_readings_group ! 0)\<bar> \<and>
    \<bar>left (records decimal_readings_group ! 0)
       + right (records decimal_readings_group ! 0)\<bar> \<le> 2 powi 1023"
    unfolding s using decimal_readings(4) by (simp add: power_int_minus field_simps)
  obtain a where a: "average (toChartData sample_runtime decimal_readings_group ! 0) = Finite a"
    and b: "\<bar>a - (left (records decimal_readings_group ! 0)
                 + right (records decimal_readings_group ! 0)) / 2\<bar>
             \<le> 2 powi (- 54) * \<bar>left (records decimal_readings_group ! 0)
                                 + right (records decimal_readings_group ! 0)\<bar>"
    using t [where grp = decimal_readings_group and i = 0] r by blast
  have "a = 4559894622712627 / 2 ^ 48" using a p2 by simp
  then have p3: "\<bar>4559894622712627 / 2 ^ 48 - (18239578490850509 / 2 ^ 49) / 2\<bar>
     \<le> 2 powi (- 54) * \<bar>18239578490850509 / 2 ^ 49 :: real\<bar>"
    using b unfolding s by simp
  show ?thesis using p0 p1 p2 p3 by blast
qed

text \<open>
  C4. For a group whose records ascend in time, the \<open>minutesFromStart\<close> of each
  point is the time elapsed from the first record of the group to the record of the
  point, in minutes, rounded to the nearest whole number (it differs from the exact
  quotient by at most one half), and the values do not decrease along the points.
\<close>

theorem minutesFromStart_rounded_monotone:
  assumes "sorted (map (ts env) (records grp))"
  shows "map minutesFromStart (toChartData env grp)
           = map (\<lambda>r. Math_round (real_of_int (ts env r - ts env (hd (records grp))) / 60000))
               (records grp) \<and>
         (\<forall>r\<in>set (records grp).
            \<bar>real_of_int (Math_round (real_of_int (ts env r - ts env (hd (records grp))) / 60000))
               - real_of_int (ts env r - ts env (hd (records grp))) / 60000\<bar> \<le> 1 / 2) \<and>
         sorted (map minutesFromStart (toChartData env grp))"
proof -
  let ?f = "\<lambda>r. Math_round (real_of_int (ts env r - ts env (hd (records grp))) / 60000)"
  have m: "map minutesFromStart (toChartData env grp) = map ?f (records grp)"
    by (simp add: toChartData_map minutesFromStart_toChartPoint)
  have mono: "\<And>a b. ts env a \<le> ts env b \<Longrightarrow> ?f a \<le> ?f b"
    by (rule Math_round_mono) (simp add: divide_right_mono)
  have "sorted (map ?f (records grp))"
    using assms mono by (simp add: sorted_wrt_map sorted_wrt_mono_rel [where P = "\<lambda>a b. ts env a \<le> ts env b"])
  then show ?thesis using m Math_round_nearest by simp
qed


lemma sample_chart_ts:
  "map (ts sample_runtime) (records sample_chart_group)
     = [1704441600000, 1704441690000, 1704477600000]"
  by (simp add: sample_chart_group_def sample_record_def ts_def sample_getTime)

theorem minutesFromStart_rounded_monotone_witness:
  "sorted (map (ts sample_runtime) (records sample_chart_group)) \<and>
   map minutesFromStart (toChartData sample_runtime sample_chart_group) = [0, 2, 600] \<and>
   \<bar>real_of_int (Math_round (real_of_int (1704441690000 - 1704441600000) / 60000))
       - real_of_int (1704441690000 - 1704441600000) / 60000\<bar> \<le> 1 / 2 \<and>
   sorted [0, 2, 600 :: int]"
proof -
  have h: "sorted (map (ts sample_runtime) (records sample_chart_group))"
    by (simp add: sample_chart_ts)
  note t = minutesFromStart_rounded_monotone [OF h]
  have hd: "ts sample_runtime (hd (records sample_chart_group)) = 1704441600000"
    by (simp add: sample_chart_group_def sample_record_def ts_def sample_getTime)
  have v: "map (\<lambda>r. Math_round (real_of_int (ts sample_runtime r
              - ts sample_runtime (hd (records sample_chart_group))) / 60000))
            (records sample_chart_group) = [0, 2, 600]"
    unfolding hd Math_round_div
    by (simp add: sample_chart_group_def sample_record_def ts_def sample_getTime)
  have m: "map minutesFromStart (toChartData sample_runtime sample_chart_group) = [0, 2, 600]"
    using t v by simp
  have r: "sample_record ''2024-01-05T08:01:30.000Z'' True \<in> set (records sample_chart_group)"
    by (simp add: sample_chart_group_def)
  have tr: "ts sample_runtime (sample_record ''2024-01-05T08:01:30.000Z'' True) = 1704441690000"
    by (simp add: sample_record_def ts_def sample_getTime)
  have n: "\<bar>real_of_int (Math_round (real_of_int (1704441690000 - 1704441600000) / 60000))
       - real_of_int (1704441690000 - 1704441600000) / 60000\<bar> \<le> 1 / 2"
    using t r unfolding hd [symmetric] tr [symmetric] by blast
  have s: "sorted [0, 2, 600 :: int]"
    using t unfolding m by blast
  show ?thesis using h m n s by blast
qed

subsection \<open>Labels\<close>

lemma digit_char_0: "digit_char 0 = CHR ''0''"
  by (simp add: digit_char_def)

lemma padStart2_Number_toString:
  assumes "0 \<le> n" and "n < 100"
  shows "padStart2 (Number_toString n) = two_digits n"
proof (cases "n < 10")
  case True
  then have "nat n < 10" using assms by linarith
  then have "nat_toString (nat n) = [digit_char (nat n)]"
    by (subst nat_toString.simps) simp
  then show ?thesis
    using assms True by (simp add: padStart2_def Number_toString_def two_digits_def digit_char_0)
next
  case False
  have lt: "nat n div 10 < 10" using assms by simp
  have ge: "\<not> nat n < 10" using False by linarith
  have "nat_toString (nat n) = nat_toString (nat n div 10) @ [digit_char (nat n mod 10)]"
    using ge by (subst nat_toString.simps) simp
  moreover have "nat_toString (nat n div 10) = [digit_char (nat n div 10)]"
    using lt by (subst nat_toString.simps) simp
  ultimately show ?thesis
    using assms by (simp add: padStart2_def Number_toString_def two_digits_def)
qed

lemma formatTime_time_of_day: "formatTime env t = time_of_day env t"
proof -
  have h: "0 \<le> getHours env t" "getHours env t < 100"
    using pos_mod_bound [of 24 "LocalTime env t div msPerHour"]
    by (simp_all add: getHours_def HourFromTime_def)
  have m: "0 \<le> getMinutes env t" "getMinutes env t < 100"
    using pos_mod_bound [of 60 "LocalTime env t div msPerMinute"]
    by (simp_all add: getMinutes_def MinFromTime_def)
  show ?thesis
    using padStart2_Number_toString [OF h] padStart2_Number_toString [OF m]
    by (simp add: formatTime_def time_of_day_def getHours_def getMinutes_def)
qed

lemma label_toChartPoint_24h:
  "group_type grp = T24h \<Longrightarrow>
   label (toChartPoint env grp t0 r) =
     (if getDate env (ts env r) \<noteq> getDate env t0 then ''+1 '' @ time_of_day env (ts env r)
      else time_of_day env (ts env r))"
  by (simp add: toChartPoint_def Let_def ts_def formatTime_time_of_day)

lemma label_toChartPoint_regular:
  "group_type grp = Regular \<Longrightarrow>
   label (toChartPoint env grp t0 r) = toLocaleDateString env (ts env r)"
  by (simp add: toChartPoint_def Let_def ts_def formatDate_def)

lemma getDate_near:
  "\<bar>local_day env a - local_day env b\<bar> < 28 \<Longrightarrow>
   getDate env a \<noteq> getDate env b \<longleftrightarrow> local_day env a \<noteq> local_day env b"
  using DateFromDay_near [of "local_day env a" "local_day env b"]
  by (simp add: getDate_def DateFromTime_def local_day_def)

lemma local_day_near:
  assumes z: "\<forall>t. \<bar>LocalTZA env t\<bar> \<le> msPerDay"
    and lo: "b \<le> a" and hi: "a - b \<le> THIRTY_HOURS_MS"
  shows "\<bar>local_day env a - local_day env b\<bar> < 28"
proof -
  let ?la = "LocalTime env a" and ?lb = "LocalTime env b"
  have za: "\<bar>LocalTZA env a\<bar> \<le> msPerDay" and zb: "\<bar>LocalTZA env b\<bar> \<le> msPerDay"
    using z by blast+
  have d: "\<bar>?la - ?lb\<bar> \<le> 345600000"
    using za zb lo hi by (simp add: LocalTime_def THIRTY_HOURS_MS_def msPerDay_def)
  have ea: "?la = 86400000 * (?la div 86400000) + ?la mod 86400000" by simp
  have eb: "?lb = 86400000 * (?lb div 86400000) + ?lb mod 86400000" by simp
  have ra: "0 \<le> ?la mod 86400000" "?la mod 86400000 < 86400000" by simp_all
  have rb: "0 \<le> ?lb mod 86400000" "?lb mod 86400000 < 86400000" by simp_all
  show ?thesis
    unfolding local_day_def Day_def msPerDay_def using d ea eb ra rb by linarith
qed


lemma labels_24h_near:
  assumes "group_type grp = T24h"
    and "\<forall>r\<in>set (records grp).
           \<bar>local_day env (ts env r) - local_day env (ts env (hd (records grp)))\<bar> < 28"
  shows "map label (toChartData env grp)
           = map (\<lambda>r. day_marked_label env (ts env (hd (records grp))) (ts env r)) (records grp)"
  unfolding toChartData_map map_map
proof (rule map_cong [OF refl])
  fix r assume "r \<in> set (records grp)"
  then have "\<bar>local_day env (ts env r) - local_day env (ts env (hd (records grp)))\<bar> < 28"
    using assms(2) by blast
  then show "(label \<circ> toChartPoint env grp (ts env (hd (records grp)))) r
      = day_marked_label env (ts env (hd (records grp))) (ts env r)"
    using getDate_near [of env "ts env r" "ts env (hd (records grp))"]
    by (simp add: label_toChartPoint_24h [OF assms(1)] day_marked_label_def)
qed

lemma groupRecords_24h_group:
  assumes "groupRecords env recs = Inr gs" and "g \<in> set gs" and "group_type g = T24h"
  shows "\<exists>w\<in>set (continuous_part env recs). g = group24h env w"
proof -
  have "g \<in> set (filter (\<lambda>g. group_type g = T24h) gs)" using assms by simp
  moreover have "gs = regular_part env recs @ map (group24h env) (continuous_part env recs)"
    using assms(1) by (simp add: groupRecords_eq)
  ultimately have "g \<in> set (map (group24h env) (continuous_part env recs))"
    by (simp only: filter_24h_output)
  then show ?thesis by auto
qed

lemma label_24h_near_nth:
  assumes "group_type grp = T24h" and "i < length (records grp)"
    and "\<bar>local_day env (ts env (records grp ! i))
           - local_day env (ts env (hd (records grp)))\<bar> < 28"
  shows "label (toChartData env grp ! i)
           = day_marked_label env (ts env (hd (records grp))) (ts env (records grp ! i))"
  using getDate_near [OF assms(3)] assms(2)
  by (simp add: toChartData_map label_toChartPoint_24h [OF assms(1)] day_marked_label_def)

text \<open>
  C3. On every group that \<open>toChartData\<close> is given, which are the groups that
  \<open>groupRecords\<close> returns, the label of the point of each record of a continuous
  group is the local time of day of the record, two digits of the hour, a colon and
  two digits of the minute, and carries the marker \<open>+1\<close> exactly when the local
  calendar day of the record is not that of the first record of the group; in a
  regular group the label is the locale rendering of the date of the record, with no
  marker. The same holds, record by record, in any continuous group for a record at
  most 30 hours after the first one (the invariant of a record group), and more
  generally for a record whose local calendar day is fewer than 28 days from that of
  the first one: the code compares days of the month. The local zone is one whose
  offset from UTC is at most a day.
\<close>

theorem chart_labels:
  "(groupRecords env recs = Inr gs \<and> g \<in> set gs \<and> group_type g = T24h \<and>
    (\<forall>t. \<bar>LocalTZA env t\<bar> \<le> msPerDay) \<longrightarrow>
      map label (toChartData env g)
        = map (\<lambda>r. day_marked_label env (ts env (hd (records g))) (ts env r)) (records g)) \<and>
   (group_type grp = T24h \<and> i < length (records grp) \<and>
    (\<forall>t. \<bar>LocalTZA env t\<bar> \<le> msPerDay) \<and>
    ts env (hd (records grp)) \<le> ts env (records grp ! i) \<and>
    ts env (records grp ! i) - ts env (hd (records grp)) \<le> THIRTY_HOURS_MS \<longrightarrow>
      label (toChartData env grp ! i)
        = day_marked_label env (ts env (hd (records grp))) (ts env (records grp ! i))) \<and>
   (group_type grp = T24h \<and> i < length (records grp) \<and>
    \<bar>local_day env (ts env (records grp ! i))
       - local_day env (ts env (hd (records grp)))\<bar> < 28 \<longrightarrow>
      label (toChartData env grp ! i)
        = day_marked_label env (ts env (hd (records grp))) (ts env (records grp ! i))) \<and>
   (group_type grp = Regular \<longrightarrow>
      map label (toChartData env grp) = map (\<lambda>r. toLocaleDateString env (ts env r)) (records grp))"
proof (intro conjI impI)
  assume a: "groupRecords env recs = Inr gs \<and> g \<in> set gs \<and> group_type g = T24h \<and>
    (\<forall>t. \<bar>LocalTZA env t\<bar> \<le> msPerDay)"
  then obtain w where w: "w \<in> set (continuous_part env recs)" and g: "g = group24h env w"
    using groupRecords_24h_group by blast
  have r: "records g = w" by (simp add: g group24h_def)
  have "\<forall>r\<in>set (records g).
       \<bar>local_day env (ts env r) - local_day env (ts env (hd (records g)))\<bar> < 28"
    unfolding r
    using local_day_near [of env] a continuous_part_within [OF w]
      sorted_hd_le [OF continuous_part_sorted [OF w]]
    by blast
  then show "map label (toChartData env g)
        = map (\<lambda>r. day_marked_label env (ts env (hd (records g))) (ts env r)) (records g)"
    using labels_24h_near a by blast
next
  assume a: "group_type grp = T24h \<and> i < length (records grp) \<and>
    (\<forall>t. \<bar>LocalTZA env t\<bar> \<le> msPerDay) \<and>
    ts env (hd (records grp)) \<le> ts env (records grp ! i) \<and>
    ts env (records grp ! i) - ts env (hd (records grp)) \<le> THIRTY_HOURS_MS"
  then have "\<bar>local_day env (ts env (records grp ! i))
       - local_day env (ts env (hd (records grp)))\<bar> < 28"
    using local_day_near [of env "ts env (hd (records grp))" "ts env (records grp ! i)"] by blast
  then show "label (toChartData env grp ! i)
        = day_marked_label env (ts env (hd (records grp))) (ts env (records grp ! i))"
    using label_24h_near_nth a by blast
next
  assume "group_type grp = T24h \<and> i < length (records grp) \<and>
    \<bar>local_day env (ts env (records grp ! i))
       - local_day env (ts env (hd (records grp)))\<bar> < 28"
  then show "label (toChartData env grp ! i)
        = day_marked_label env (ts env (hd (records grp))) (ts env (records grp ! i))"
    using label_24h_near_nth by blast
next
  assume "group_type grp = Regular"
  then show "map label (toChartData env grp)
      = map (\<lambda>r. toLocaleDateString env (ts env r)) (records grp)"
    by (simp add: toChartData_map label_toChartPoint_regular)
qed

lemma sample_LocalTZA: "LocalTZA sample_runtime t = 28800000"
  by (simp add: sample_runtime_def)

lemmas sample_label_eval =
  day_marked_label_def local_day_def time_of_day_def two_digits_def LocalTime_def sample_LocalTZA
  Day_def HourFromTime_def MinFromTime_def msPerDay_def msPerHour_def msPerMinute_def digit_char_def

theorem chart_labels_witness:
  "groupRecords sample_runtime sample_records = Inr sample_groups \<and>
   map label (toChartData sample_runtime (sample_groups ! 1)) = [''16:00'', ''+1 02:00''] \<and>
   label (toChartData sample_runtime sample_chart_group ! 1) = ''16:01'' \<and>
   label (toChartData sample_runtime sample_chart_group ! 2) = ''+1 02:00'' \<and>
   map label (toChartData sample_runtime (sample_groups ! 0)) = [''19692'']"
proof -
  note t = chart_labels [where env = sample_runtime and recs = sample_records and gs = sample_groups]
  have z: "\<forall>t. \<bar>LocalTZA sample_runtime t\<bar> \<le> msPerDay"
    by (simp add: sample_LocalTZA msPerDay_def)
  have g1: "sample_groups ! 1 \<in> set sample_groups" "group_type (sample_groups ! 1) = T24h"
    by (simp_all add: sample_groups_def)
  have "map label (toChartData sample_runtime (sample_groups ! 1))
      = map (\<lambda>r. day_marked_label sample_runtime
                (ts sample_runtime (hd (records (sample_groups ! 1)))) (ts sample_runtime r))
          (records (sample_groups ! 1))"
    using t [where g = "sample_groups ! 1"] sample_groupRecords g1 z by blast
  also have "\<dots> = [''16:00'', ''+1 02:00'']"
    by (simp add: sample_groups_def sample_record_def ts_def sample_getTime sample_label_eval)
  finally have p1: "map label (toChartData sample_runtime (sample_groups ! 1))
      = [''16:00'', ''+1 02:00'']" .
  have c1: "group_type sample_chart_group = T24h"
    by (simp add: sample_chart_group_def)
  have hd1: "ts sample_runtime (hd (records sample_chart_group)) = 1704441600000"
    by (simp add: sample_chart_group_def sample_record_def ts_def sample_getTime)
  have n1: "ts sample_runtime (records sample_chart_group ! 1) = 1704441690000"
    and n2: "ts sample_runtime (records sample_chart_group ! 2) = 1704477600000"
    by (simp_all add: sample_chart_group_def sample_record_def ts_def sample_getTime)
  have len: "1 < length (records sample_chart_group)" "2 < length (records sample_chart_group)"
    by (simp_all add: sample_chart_group_def)
  have "label (toChartData sample_runtime sample_chart_group ! 1)
      = day_marked_label sample_runtime (ts sample_runtime (hd (records sample_chart_group)))
          (ts sample_runtime (records sample_chart_group ! 1))"
    using t [where grp = sample_chart_group and i = 1] c1 len(1) z
    unfolding hd1 n1 by (simp add: THIRTY_HOURS_MS_def)
  also have "\<dots> = ''16:01''"
    unfolding hd1 n1 by (simp add: sample_label_eval)
  finally have p2: "label (toChartData sample_runtime sample_chart_group ! 1) = ''16:01''" .
  have near: "\<bar>local_day sample_runtime (ts sample_runtime (records sample_chart_group ! 2))
       - local_day sample_runtime (ts sample_runtime (hd (records sample_chart_group)))\<bar> < 28"
    unfolding hd1 n2 by (simp add: sample_label_eval)
  have "label (toChartData sample_runtime sample_chart_group ! 2)
      = day_marked_label sample_runtime (ts sample_runtime (hd (records sample_chart_group)))
          (ts sample_runtime (records sample_chart_group ! 2))"
    using t [where grp = sample_chart_group and i = 2] c1 len(2) near by blast
  also have "\<dots> = ''+1 02:00''"
    unfolding hd1 n2 by (simp add: sample_label_eval)
  finally have p3: "label (toChartData sample_runtime sample_chart_group ! 2) = ''+1 02:00''" .
  have g0: "group_type (sample_groups ! 0) = Regular"
    by (simp add: sample_groups_def)
  have "map label (toChartData sample_runtime (sample_groups ! 0))
      = map (\<lambda>r. toLocaleDateString sample_runtime (ts sample_runtime r)) (records (sample_groups ! 0))"
    using t [where grp = "sample_groups ! 0"] g0 by blast
  also have "\<dots> = [''19692'']"
    by (simp add: sample_groups_def sample_record_def ts_def sample_getTime
        sample_runtime_def [THEN arg_cong [of _ _ toLocaleDateString], simplified]
        Day_def msPerDay_def Number_toString_def nat_toString.simps digit_char_def)
  finally have p4: "map label (toChartData sample_runtime (sample_groups ! 0)) = [''19692'']" .
  show ?thesis using p1 p2 p3 p4 sample_groupRecords by blast
qed

lemma month_apart_ts:
  "ts sample_runtime (hd (records month_apart_group)) = 1704456000000"
  "ts sample_runtime (records month_apart_group ! 1) = 1707134400000"
  by (simp_all add: month_apart_group_def sample_record_def ts_def sample_getTime)

lemma month_apart_getDate:
  "getDate sample_runtime 1704456000000 = 5" "getDate sample_runtime 1707134400000 = 5"
  by (simp_all add: getDate_def DateFromTime_def DateFromDay_def LocalTime_def sample_LocalTZA
      Day_def msPerDay_def day_of_era_def day_of_march_year_def day_of_century_year_def
      day_of_cycle_year_def day_of_month_def)

text \<open>
  The bound on the distance of the two days is needed: in a hand-made group of the
  continuous mode whose second record is a month after the first (5 January and
  5 February, both at 20:00 local time) the days of the month agree and the label has
  no marker. The second record is more than 30 hours after the first, so this is not a
  group that \<open>groupRecords\<close> returns.
\<close>

lemma month_apart_label:
  "group_type month_apart_group = T24h \<and>
   THIRTY_HOURS_MS < ts sample_runtime (records month_apart_group ! 1)
     - ts sample_runtime (hd (records month_apart_group)) \<and>
   local_day sample_runtime (ts sample_runtime (records month_apart_group ! 1))
     \<noteq> local_day sample_runtime (ts sample_runtime (hd (records month_apart_group))) \<and>
   label (toChartData sample_runtime month_apart_group ! 1) = ''20:00''"
proof -
  have t: "group_type month_apart_group = T24h" by (simp add: month_apart_group_def)
  have d: "local_day sample_runtime 1707134400000 \<noteq> local_day sample_runtime 1704456000000"
    by (simp add: sample_label_eval)
  have p: "toChartData sample_runtime month_apart_group ! 1
      = toChartPoint sample_runtime month_apart_group 1704456000000 (records month_apart_group ! 1)"
    unfolding toChartData_map month_apart_ts by (simp add: month_apart_group_def)
  have l: "label (toChartData sample_runtime month_apart_group ! 1) = ''20:00''"
    unfolding p label_toChartPoint_24h [OF t] month_apart_ts month_apart_getDate
    by (simp add: sample_label_eval)
  have far: "THIRTY_HOURS_MS < (1707134400000::int) - 1704456000000"
    by (simp add: THIRTY_HOURS_MS_def)
  show ?thesis using t d l far unfolding month_apart_ts by blast
qed

section \<open>Properties of the record source\<close>

lemma transformNotionPage_no_date:
  "properties page = Some props \<Longrightarrow> prop_Date props = None \<Longrightarrow>
   transformNotionPage env page = None"
  by (simp add: transformNotionPage_def transformNotionPage_try_def)

lemma transformNotionPage_no_properties:
  "properties page = None \<Longrightarrow> transformNotionPage env page = None"
  by (simp add: transformNotionPage_def transformNotionPage_try_def)

lemma transform_results_map_filter:
  "transform_results env acc ps = acc @ List.map_filter (transformNotionPage env) ps"
proof (induction ps arbitrary: acc)
  case Nil
  then show ?case by (simp add: List.map_filter_simps)
next
  case (Cons p ps)
  show ?case
  proof (cases "properties p")
    case None
    then show ?thesis
      using Cons.IH by (simp add: List.map_filter_simps transformNotionPage_no_properties)
  next
    case (Some props)
    then show ?thesis
      using Cons.IH by (cases "transformNotionPage env p") (simp_all add: List.map_filter_simps)
  qed
qed

lemma map_filter_append:
  "List.map_filter f (xs @ ys) = List.map_filter f xs @ List.map_filter f ys"
  by (simp add: List.map_filter_def)

text \<open>
  C7. A page whose date is missing is turned into no record: \<open>transformNotionPage\<close>
  returns \<open>null\<close> for it, and the records collected from a list of pages (and so the
  groups made of them) are the same with that page and without it. A page whose date
  is present and parses always gives a record, in which a missing name or note is the
  empty string, a missing reading is zero and a missing mode flag is false. The loop
  over the pages returns for every list of pages: it keeps the records it had and adds,
  in order, the record of each page that has one.
\<close>

theorem missing_date_dropped_others_defaulted:
  "(properties page = Some props \<and> prop_Date props = None \<longrightarrow>
      transformNotionPage env page = None \<and>
      transform_results env acc (ps @ page # qs) = transform_results env acc (ps @ qs) \<and>
      groupRecords env (transform_results env acc (ps @ page # qs))
        = groupRecords env (transform_results env acc (ps @ qs))) \<and>
   (properties page = Some props \<and> prop_Date props = Some d \<and> d \<noteq> [] \<and>
    Date_parse env d = Some t \<longrightarrow>
      transformNotionPage env page =
        Some \<lparr>rec_id = page_id page,
              name = (case prop_Name props of None \<Rightarrow> [] | Some s \<Rightarrow> s),
              date = toISOString env t,
              left = (case prop_Left props of None \<Rightarrow> 0 | Some v \<Rightarrow> v),
              right = (case prop_Right props of None \<Rightarrow> 0 | Some v \<Rightarrow> v),
              is24h = (case prop_is24h props of None \<Rightarrow> False | Some b \<Rightarrow> b),
              rec_note = (case prop_Note props of None \<Rightarrow> [] | Some s \<Rightarrow> s)\<rparr>) \<and>
   transform_results env acc ps = acc @ List.map_filter (transformNotionPage env) ps"
proof (intro conjI impI)
  assume a: "properties page = Some props \<and> prop_Date props = None"
  then show n: "transformNotionPage env page = None"
    using transformNotionPage_no_date by blast
  show e: "transform_results env acc (ps @ page # qs) = transform_results env acc (ps @ qs)"
    using n by (simp add: transform_results_map_filter map_filter_append List.map_filter_simps)
  show "groupRecords env (transform_results env acc (ps @ page # qs))
        = groupRecords env (transform_results env acc (ps @ qs))"
    by (simp only: e)
next
  assume "properties page = Some props \<and> prop_Date props = Some d \<and> d \<noteq> [] \<and>
    Date_parse env d = Some t"
  then show "transformNotionPage env page =
        Some \<lparr>rec_id = page_id page,
              name = (case prop_Name props of None \<Rightarrow> [] | Some s \<Rightarrow> s),
              date = toISOString env t,
              left = (case prop_Left props of None \<Rightarrow> 0 | Some v \<Rightarrow> v),
              right = (case prop_Right props of None \<Rightarrow> 0 | Some v \<Rightarrow> v),
              is24h = (case prop_is24h props of None \<Rightarrow> False | Some b \<Rightarrow> b),
              rec_note = (case prop_Note props of None \<Rightarrow> [] | Some s \<Rightarrow> s)\<rparr>"
    by (simp add: transformNotionPage_def transformNotionPage_try_def or_empty_def nullish_def
        split: option.splits)
next
  show "transform_results env acc ps = acc @ List.map_filter (transformNotionPage env) ps"
    by (rule transform_results_map_filter)
qed

lemma sample_Date_parse:
  "Date_parse sample_runtime ''2024-01-05T18:00:00.000Z'' = Some 1704477600000"
  by (simp add: sample_runtime_def sample_times_def)

lemma sample_toISOString:
  "toISOString sample_runtime 1704477600000 = ''2024-01-05T18:00:00.000Z''"
  "toISOString sample_runtime 1704441600000 = ''2024-01-05T08:00:00.000Z''"
  by (simp_all add: sample_runtime_def sample_times_def)

theorem missing_date_dropped_others_defaulted_witness:
  "transformNotionPage sample_runtime sample_page_no_date = None \<and>
   transform_results sample_runtime [] ([sample_page_full] @ sample_page_no_date # [sample_page_date_only])
     = transform_results sample_runtime [] ([sample_page_full] @ [sample_page_date_only]) \<and>
   transformNotionPage sample_runtime sample_page_date_only =
     Some \<lparr>rec_id = ''page-3'', name = [], date = ''2024-01-05T18:00:00.000Z'',
           left = 0, right = 0, is24h = False, rec_note = []\<rparr> \<and>
   transform_results sample_runtime [] [sample_page_full, sample_page_no_date, sample_page_date_only]
     = [\<lparr>rec_id = ''page-1'', name = ''am'', date = ''2024-01-05T08:00:00.000Z'',
         left = 15, right = 18, is24h = True, rec_note = ''rest''\<rparr>,
        \<lparr>rec_id = ''page-3'', name = [], date = ''2024-01-05T18:00:00.000Z'',
         left = 0, right = 0, is24h = False, rec_note = []\<rparr>]"
proof -
  let ?p2 = "\<lparr>prop_Date = None, prop_Name = Some ''noon'',
                         prop_Left = Some 16, prop_Right = Some 17, prop_is24h = Some True,
                         prop_Note = None\<rparr>"
  let ?p3 = "\<lparr>prop_Date = Some ''2024-01-05T18:00:00.000Z'', prop_Name = None,
                         prop_Left = None, prop_Right = None, prop_is24h = None,
                         prop_Note = None\<rparr>"
  have h2: "properties sample_page_no_date = Some ?p2 \<and> prop_Date ?p2 = None"
    by (simp add: sample_page_no_date_def)
  have h3: "properties sample_page_date_only = Some ?p3 \<and>
      prop_Date ?p3 = Some ''2024-01-05T18:00:00.000Z'' \<and> ''2024-01-05T18:00:00.000Z'' \<noteq> [] \<and>
      Date_parse sample_runtime ''2024-01-05T18:00:00.000Z'' = Some 1704477600000"
    by (simp add: sample_page_date_only_def sample_Date_parse)
  note t2 = missing_date_dropped_others_defaulted
    [where page = sample_page_no_date and props = ?p2 and env = sample_runtime and acc = "[]"
       and ps = "[sample_page_full]" and qs = "[sample_page_date_only]"]
  note t3 = missing_date_dropped_others_defaulted
    [where page = sample_page_date_only and props = ?p3 and env = sample_runtime and acc = "[]"
       and d = "''2024-01-05T18:00:00.000Z''" and t = 1704477600000
       and ps = "[sample_page_full, sample_page_no_date, sample_page_date_only]"]
  have a: "transformNotionPage sample_runtime sample_page_no_date = None"
    and b: "transform_results sample_runtime [] ([sample_page_full] @ sample_page_no_date # [sample_page_date_only])
     = transform_results sample_runtime [] ([sample_page_full] @ [sample_page_date_only])"
    using t2 h2 by blast+
  have c: "transformNotionPage sample_runtime sample_page_date_only =
     Some \<lparr>rec_id = ''page-3'', name = [], date = ''2024-01-05T18:00:00.000Z'',
           left = 0, right = 0, is24h = False, rec_note = []\<rparr>"
    using t3 h3 by (simp add: sample_page_date_only_def sample_toISOString)
  have f: "transformNotionPage sample_runtime sample_page_full =
     Some \<lparr>rec_id = ''page-1'', name = ''am'', date = ''2024-01-05T08:00:00.000Z'',
         left = 15, right = 18, is24h = True, rec_note = ''rest''\<rparr>"
    by (simp add: transformNotionPage_def transformNotionPage_try_def or_empty_def nullish_def
        sample_page_full_def sample_toISOString
        sample_runtime_def [THEN arg_cong [of _ _ Date_parse], simplified] sample_times_def)
  have d: "transform_results sample_runtime [] [sample_page_full, sample_page_no_date, sample_page_date_only]
     = [\<lparr>rec_id = ''page-1'', name = ''am'', date = ''2024-01-05T08:00:00.000Z'',
         left = 15, right = 18, is24h = True, rec_note = ''rest''\<rparr>,
        \<lparr>rec_id = ''page-3'', name = [], date = ''2024-01-05T18:00:00.000Z'',
         left = 0, right = 0, is24h = False, rec_note = []\<rparr>]"
    using t3 a c f by (simp add: List.map_filter_simps)
  show ?thesis using a b c d by blast
qed

end
